theory Spec2Isabelle
  imports Main
begin

section \<open>redis-commander, lib/app.js: the access gate and the connection registry\<close>

text \<open>
  The theory embeds the functions of \<^verbatim>\<open>lib/app.js\<close> that guard the administration
  front-end: \<^verbatim>\<open>equalStrings\<close>, \<^verbatim>\<open>jwtSign\<close>, \<^verbatim>\<open>jwtVerify\<close>, the sign-in handler, the
  token middleware, \<^verbatim>\<open>logout\<close> and \<^verbatim>\<open>login\<close>.

  Conventions. A JavaScript string is the list of its bytes (\<^verbatim>\<open>Buffer.from\<close> encodes
  UTF-8; header values are Latin-1, one byte per character). A value that may be
  \<^verbatim>\<open>undefined\<close> is an \<open>option\<close>. A promise is the value it settles to. Module-level
  variables (\<^verbatim>\<open>usedTokens\<close>, \<^verbatim>\<open>redisConnections\<close>) and the pending timers of the event
  loop are fields of an explicit state that every function takes and returns. The
  clock \<^verbatim>\<open>Date.now()\<close> is an integer number of milliseconds passed as \<open>now\<close>.
\<close>

subsection \<open>Errors, promises, truthiness\<close>

datatype js_error =
    RangeError
  | TypeError
  | JsonWebTokenError string
  | NotBeforeError
  | TokenExpiredError
  | Error string

datatype 'a promise = Resolved 'a | Rejected js_error

text \<open>\<^verbatim>\<open>if (x)\<close> on a string that may be undefined: undefined and \<^verbatim>\<open>''\<close> are falsy.\<close>

definition truthy :: "string option \<Rightarrow> bool" where
  "truthy v = (case v of None \<Rightarrow> False | Some s \<Rightarrow> s \<noteq> [])"

text \<open>\<^verbatim>\<open>String(x)\<close>: the string itself, or the text \<^verbatim>\<open>undefined\<close>.\<close>

definition String :: "string option \<Rightarrow> string" where
  "String v = (case v of None \<Rightarrow> ''undefined'' | Some s \<Rightarrow> s)"

text \<open>\<^verbatim>\<open>x || ''\<close>\<close>

definition or_empty :: "string option \<Rightarrow> string" where
  "or_empty v = (case v of None \<Rightarrow> [] | Some s \<Rightarrow> s)"

subsection \<open>equalStrings (lines 22-33)\<close>

text \<open>
  \<^verbatim>\<open>crypto.timingSafeEqual\<close> throws a RangeError on buffers of different byte length and
  otherwise tells whether they hold the same bytes.
\<close>

definition timingSafeEqual :: "string \<Rightarrow> string \<Rightarrow> js_error + bool" where
  "timingSafeEqual x y = (if length x = length y then Inr (x = y) else Inl RangeError)"

text \<open>
  \<open>has_timingSafeEqual\<close> says whether the runtime offers \<^verbatim>\<open>crypto.timingSafeEqual\<close>; where
  it does not, the function falls back to \<^verbatim>\<open>a === b\<close>.
\<close>

definition equalStrings :: "bool \<Rightarrow> string \<Rightarrow> string \<Rightarrow> js_error + bool" where
  "equalStrings has_timingSafeEqual a b =
     (if has_timingSafeEqual
      then (let bufA = a; bufB = b in timingSafeEqual (bufA @ bufB) (bufB @ bufA))
      else Inr (a = b))"

subsection \<open>The token library\<close>

text \<open>
  The payload of a session token: the registered claims the code and the library read,
  and the \<^verbatim>\<open>singleUse\<close> flag of the query token.
\<close>

record jwt_claims =
  iss :: "string option"
  sub :: "string option"
  iat :: "int option"
  nbf :: "int option"
  exp :: "int option"
  singleUse :: bool

text \<open>
  What parsing a compact token yields as its payload: a JSON object with its claims, or
  the JSON value \<^verbatim>\<open>null\<close>, which has none and whose properties cannot be read.
\<close>

datatype jwt_payload = Null | Object jwt_claims

text \<open>
  The cryptography of the \<^verbatim>\<open>jsonwebtoken\<close> package is a parameter of the model: how a
  payload is serialised and signed, how a compact token is parsed, and whether a token's
  signature verifies under a secret. Every theorem below holds for each such triple;
  only the round trip of issuing and verifying asks that signing and parsing fit
  together.
\<close>

record jwt_lib =
  jws_sign :: "string \<Rightarrow> jwt_claims \<Rightarrow> string"
  jws_decode :: "string \<Rightarrow> jwt_payload option"
  jws_verify :: "string \<Rightarrow> string \<Rightarrow> bool"

text \<open>
  A call of \<^verbatim>\<open>jwt.verify\<close> with a callback ends in one of three ways: it calls the
  callback with an error, it calls the callback with the decoded payload, or it throws
  before it has called the callback.
\<close>

datatype verify_outcome = Throws js_error | Fails js_error | Decoded jwt_claims

record verify_options =
  issuer :: string
  subject :: string

text \<open>
  Modelled from the spec: \<^verbatim>\<open>jwt.verify\<close> of the jsonwebtoken package, which is not part
  of the repository's sources. The spec has it "cryptographically verify signature and
  expiry", reject "bad signature, expired, malformed" tokens, and reject expired tokens
  "regardless of signature validity"; the issuer and subject are the fixed identities
  passed by the caller. The clock of the check is \<open>now\<close> in whole seconds; a token is
  expired from the second \<open>exp\<close> on, and not yet active before \<open>nbf\<close>. The package reads
  the claims of the payload once the signature has verified; on the payload \<^verbatim>\<open>null\<close> that
  read is a TypeError, which leaves \<^verbatim>\<open>jwt.verify\<close> as an exception instead of reaching
  the callback.
\<close>

definition jwt_verify ::
  "jwt_lib \<Rightarrow> string \<Rightarrow> string \<Rightarrow> verify_options \<Rightarrow> int \<Rightarrow> verify_outcome" where
  "jwt_verify lib token secret opts now =
     (if token = [] then Fails (JsonWebTokenError ''jwt must be provided'')
      else case jws_decode lib token of
        None \<Rightarrow> Fails (JsonWebTokenError ''jwt malformed'')
      | Some parsed \<Rightarrow>
          let clockTimestamp = now div 1000 in
          if jws_verify lib token secret then
            (case parsed of
               Null \<Rightarrow> Throws TypeError
             | Object payload \<Rightarrow>
                 if (case nbf payload of None \<Rightarrow> False | Some n \<Rightarrow> clockTimestamp < n)
                 then Fails NotBeforeError
                 else if (case exp payload of None \<Rightarrow> False | Some e \<Rightarrow> e \<le> clockTimestamp)
                 then Fails TokenExpiredError
                 else if iss payload = Some (issuer opts)
                 then (if sub payload = Some (subject opts) then Decoded payload
                       else Fails (JsonWebTokenError ''jwt subject invalid''))
                 else Fails (JsonWebTokenError ''jwt issuer invalid''))
          else Fails (JsonWebTokenError ''invalid signature''))"

text \<open>
  Modelled from the spec: \<^verbatim>\<open>jwt.sign\<close> of the jsonwebtoken package with the options
  \<^verbatim>\<open>issuer\<close>, \<^verbatim>\<open>subject\<close> and \<^verbatim>\<open>expiresIn\<close> (seconds). The spec gives a session token
  the attributes "issuer, subject, issued-at, expiry (issued-at + fixed short TTL)".
\<close>

definition jwt_sign ::
  "jwt_lib \<Rightarrow> bool \<Rightarrow> string \<Rightarrow> verify_options \<Rightarrow> int \<Rightarrow> int \<Rightarrow> string" where
  "jwt_sign lib data_singleUse secret opts expiresIn now =
     (let timestamp = now div 1000 in
      jws_sign lib secret
        \<lparr>iss = Some (issuer opts), sub = Some (subject opts), iat = Some timestamp,
         nbf = None, exp = Some (timestamp + expiresIn), singleUse = data_singleUse\<rparr>)"

subsection \<open>jwtSign and jwtVerify (lines 35-69)\<close>

definition session_options :: verify_options where
  "session_options = \<lparr>issuer = ''Redis Commander'', subject = ''Session Token''\<rparr>"

definition jwtSign :: "jwt_lib \<Rightarrow> string \<Rightarrow> bool \<Rightarrow> int \<Rightarrow> string promise" where
  "jwtSign lib jwtSecret data_singleUse now =
     Resolved (jwt_sign lib data_singleUse jwtSecret session_options 60 now)"

text \<open>
  The state of the gate: the module's \<^verbatim>\<open>usedTokens\<close> set, and the timers that
  \<^verbatim>\<open>setTimeout\<close> has armed and that have not fired yet, each with the time from which it
  may fire and the token its callback deletes. \<open>verifications\<close> is a ghost counter of the
  calls of \<^verbatim>\<open>jwtVerify\<close>; no code reads it.
\<close>

record gate_state =
  usedTokens :: "string set"
  timers :: "(int \<times> string) list"
  verifications :: nat

text \<open>
  \<^verbatim>\<open>setTimeout(f, delay)\<close> on Node: a delay below 1 or above 2147483647 milliseconds
  is replaced by 1; the callback runs no earlier than the delay after the call.
\<close>

definition TIMEOUT_MAX :: int where
  "TIMEOUT_MAX = 2147483647"

definition setTimeout :: "int \<Rightarrow> int \<Rightarrow> string \<Rightarrow> gate_state \<Rightarrow> gate_state" where
  "setTimeout now delay token st =
     (let after = (if 1 \<le> delay \<and> delay \<le> TIMEOUT_MAX then delay else 1)
      in st\<lparr>timers := timers st @ [(now + after, token)]\<rparr>)"

text \<open>
  \<^verbatim>\<open>jwtVerify\<close> calls \<^verbatim>\<open>jwt.verify\<close> in the executor of a new promise, and only the
  callback calls \<^verbatim>\<open>resolve\<close>. The executor has no \<^verbatim>\<open>try\<close>, so an exception of
  \<^verbatim>\<open>jwt.verify\<close> rejects the promise.
\<close>

definition jwtVerify ::
  "jwt_lib \<Rightarrow> string \<Rightarrow> int \<Rightarrow> string \<Rightarrow> gate_state \<Rightarrow> bool promise \<times> gate_state" where
  "jwtVerify lib jwtSecret now token st0 =
     (let st = st0\<lparr>verifications := Suc (verifications st0)\<rparr> in
      case jwt_verify lib token jwtSecret session_options now of
        Throws err \<Rightarrow> (Rejected err, st)
      | Fails err \<Rightarrow> (Resolved False, st)
      | Decoded decodedToken \<Rightarrow>
          if singleUse decodedToken then
            (if token \<in> usedTokens st then (Resolved False, st)
             else
               let st1 = st\<lparr>usedTokens := insert token (usedTokens st)\<rparr> in
               (Resolved True,
                case exp decodedToken of
                  None \<Rightarrow> st1
                | Some e \<Rightarrow>
                    if e = 0 then st1
                    else setTimeout now ((e * 1 + 10) * 1000 - now) token st1))
          else (Resolved True, st))"

subsection \<open>The sign-in handler (lines 146-201)\<close>

text \<open>
  \<^verbatim>\<open>httpServerOptions\<close>, as far as the gate reads it. The runtime supplies
  \<^verbatim>\<open>crypto.timingSafeEqual\<close> (or not) and \<^verbatim>\<open>bcrypt.compare\<close>, taken as a parameter.
\<close>

record httpServerOptions =
  username :: "string option"
  password :: "string option"
  passwordHash :: "string option"

record runtime =
  timingSafe :: bool
  bcrypt_compare :: "string \<Rightarrow> string \<Rightarrow> bool"

text \<open>
  A request, as far as the gate reads it: the parsed body (an object of string fields,
  or absent), the query parameters, and \<^verbatim>\<open>req.get('Authorization')\<close>.
\<close>

record request =
  body :: "(string \<Rightarrow> string option) option"
  query :: "string \<Rightarrow> string option"
  authorization :: "string option"

text \<open>
  \<^verbatim>\<open>!httpServerOptions.username || !(httpServerOptions.passwordHash ||
  httpServerOptions.password)\<close>: no principal is configured.
\<close>

definition auth_disabled :: "httpServerOptions \<Rightarrow> bool" where
  "auth_disabled opts =
     (\<not> truthy (username opts) \<or> \<not> (truthy (passwordHash opts) \<or> truthy (password opts)))"

text \<open>
  \<^verbatim>\<open>\s\<close> on a Latin-1 string: tab, line feed, vertical tab, form feed, carriage return,
  space and no-break space.
\<close>

definition is_space :: "char \<Rightarrow> bool" where
  "is_space c =
     (c = CHR 0x09 \<or> c = CHR 0x0A \<or> c = CHR 0x0B \<or> c = CHR 0x0C \<or> c = CHR 0x0D \<or>
      c = CHR 0x20 \<or> c = CHR 0xA0)"

text \<open>
  \<^verbatim>\<open>s.split(/\s+/)\<close>: the pieces between the maximal runs of white space. \<open>in_run\<close>
  tells that the previous character was white space; \<open>cur\<close> is the piece being read. A
  string that starts (ends) with white space has an empty first (last) piece, and the
  empty string has the one piece \<^verbatim>\<open>''\<close>. The handler's call is \<open>split_ws False []\<close>.
\<close>

fun split_ws :: "bool \<Rightarrow> string \<Rightarrow> string \<Rightarrow> string list" where
  "split_ws in_run cur [] = [cur]"
| "split_ws in_run cur (c # cs) =
     (if is_space c then
        (if in_run then split_ws True cur cs else cur # split_ws True [] cs)
      else split_ws False (cur @ [c]) cs)"

text \<open>\<^verbatim>\<open>/^Bearer$/i.test(s)\<close>\<close>

definition is_Bearer :: "string \<Rightarrow> bool" where
  "is_Bearer s =
     list_all2 (\<lambda>c lu. c = fst lu \<or> c = snd lu) s (zip ''bearer'' ''BEARER'')"

text \<open>
  The token of the \<^verbatim>\<open>Authorization\<close> header: \<^verbatim>\<open>authorization[1] || ''\<close> when the
  first piece is \<^verbatim>\<open>Bearer\<close> in any case, and undefined otherwise. Both handlers read the
  header this way.
\<close>

definition bearer_token :: "string option \<Rightarrow> string option" where
  "bearer_token header =
     (case split_ws False [] (or_empty header) of
        [] \<Rightarrow> None
      | first # rest \<Rightarrow>
          if is_Bearer first
          then Some (case rest of [] \<Rightarrow> [] | second # _ \<Rightarrow> second)
          else None)"

text \<open>
  The first \<^verbatim>\<open>then\<close> callback of the sign-in handler, the spec's \<^verbatim>\<open>authenticate\<close>: the
  promise it returns and the state of the gate afterwards. With a password hash
  configured \<^verbatim>\<open>validPass\<close> is the promise of \<^verbatim>\<open>bcrypt.compare\<close>, so that
  \<^verbatim>\<open>validUser && validPass\<close> settles to the comparison's answer when the user is valid.
  An exception of \<^verbatim>\<open>equalStrings\<close> rejects the promise.
\<close>

definition password_signin ::
  "runtime \<Rightarrow> httpServerOptions \<Rightarrow> (string \<Rightarrow> string option) \<Rightarrow> bool promise" where
  "password_signin rt opts b =
     (let validUser = (String (b ''username'') = String (username opts)) in
      if truthy (passwordHash opts) then
        Resolved (validUser \<and>
                  bcrypt_compare rt (String (b ''password'')) (String (passwordHash opts)))
      else
        (case equalStrings (timingSafe rt) (String (b ''password'')) (String (password opts)) of
           Inl err \<Rightarrow> Rejected err
         | Inr validPass \<Rightarrow> Resolved (validUser \<and> validPass)))"

definition bearer_signin ::
  "jwt_lib \<Rightarrow> string \<Rightarrow> int \<Rightarrow> request \<Rightarrow> gate_state \<Rightarrow> bool promise \<times> gate_state" where
  "bearer_signin lib jwtSecret now req st =
     (case bearer_token (authorization req) of
        None \<Rightarrow> (Resolved False, st)
      | Some token \<Rightarrow> jwtVerify lib jwtSecret now token st)"

definition authenticate ::
  "runtime \<Rightarrow> httpServerOptions \<Rightarrow> jwt_lib \<Rightarrow> string \<Rightarrow> int \<Rightarrow> request \<Rightarrow> gate_state
     \<Rightarrow> bool promise \<times> gate_state" where
  "authenticate rt opts lib jwtSecret now req st =
     (if auth_disabled opts then (Resolved True, st)
      else case body req of
        None \<Rightarrow> bearer_signin lib jwtSecret now req st
      | Some b \<Rightarrow>
          if truthy (b ''username'') \<or> truthy (b ''password'')
          then (password_signin rt opts b, st)
          else bearer_signin lib jwtSecret now req st)"

subsection \<open>The token middleware (lines 202-231)\<close>

datatype gate_result = Next | Unauthorized string | Unhandled js_error

definition tokenField :: string where
  "tokenField = ''redisCommanderQueryToken''"

definition extract_token :: "request \<Rightarrow> string option" where
  "extract_token req =
     (if (case body req of None \<Rightarrow> False | Some b \<Rightarrow> truthy (b tokenField))
      then (case body req of None \<Rightarrow> None | Some b \<Rightarrow> b tokenField)
      else if truthy (query req tokenField) then query req tokenField
      else bearer_token (authorization req))"

text \<open>
  \<open>Unauthorized\<close> is status 401 with the given text; \<open>Next\<close> is the call of \<^verbatim>\<open>next()\<close>.
  A rejected verification would leave the request without an answer.
\<close>

definition token_middleware ::
  "httpServerOptions \<Rightarrow> jwt_lib \<Rightarrow> string \<Rightarrow> int \<Rightarrow> request \<Rightarrow> gate_state
     \<Rightarrow> gate_result \<times> gate_state" where
  "token_middleware opts lib jwtSecret now req st =
     (if auth_disabled opts then (Next, st)
      else
        let token = extract_token req in
        if truthy token then
          (case jwtVerify lib jwtSecret now (or_empty token) st of
             (Resolved success, st') \<Rightarrow>
               if success then (Next, st')
               else (Unauthorized ''Unauthorized - Token Invalid or Expired'', st')
           | (Rejected err, st') \<Rightarrow> (Unhandled err, st'))
        else (Unauthorized ''Unauthorized - Missing Token'', st))"

subsection \<open>logout (lines 237-251)\<close>

text \<open>
  A connection of the registry, as far as \<^verbatim>\<open>logout\<close> reads it: the label and the
  \<^verbatim>\<open>options\<close> of the client. The type \<open>'v\<close> is that of JavaScript values; their loose
  equality \<^verbatim>\<open>==\<close> is the parameter \<open>loose_eq\<close>. \<open>quits\<close> is a ghost list of the clients
  whose \<^verbatim>\<open>quit()\<close> was called, in order.
\<close>

record 'v client =
  label :: string
  options_host :: 'v
  options_port :: 'v
  options_db :: 'v

record 'v registry =
  redisConnections :: "'v client list"
  quits :: "'v client list"

text \<open>
  One call of the \<^verbatim>\<open>forEach\<close> callback. \<^verbatim>\<open>forEach\<close> visits the indices below the
  length the array had at the start, and skips an index that the array no longer has;
  \<^verbatim>\<open>splice(index, 1)\<close> removes the element at \<open>index\<close>.
\<close>

definition logout_visit ::
  "('v \<Rightarrow> 'v \<Rightarrow> bool) \<Rightarrow> 'v \<Rightarrow> 'v \<Rightarrow> 'v \<Rightarrow> nat \<Rightarrow> 'v registry \<times> bool \<Rightarrow> 'v registry \<times> bool" where
  "logout_visit loose_eq hostname port db index s =
     (case s of (reg, notRemoved) \<Rightarrow>
        if index < length (redisConnections reg) then
          (let instance = redisConnections reg ! index in
           if notRemoved \<and> loose_eq (options_host instance) hostname \<and>
              loose_eq (options_port instance) port \<and> loose_eq (options_db instance) db
           then
             (reg\<lparr>redisConnections :=
                    take index (redisConnections reg) @ drop (Suc index) (redisConnections reg),
                  quits := quits reg @ [instance]\<rparr>,
              False)
           else s)
        else s)"

text \<open>The registry afterwards, and the argument the callback is called with.\<close>

definition logout ::
  "('v \<Rightarrow> 'v \<Rightarrow> bool) \<Rightarrow> 'v \<Rightarrow> 'v \<Rightarrow> 'v \<Rightarrow> 'v registry \<Rightarrow> 'v registry \<times> js_error option" where
  "logout loose_eq hostname port db reg =
     (case fold (logout_visit loose_eq hostname port db)
             [0..<length (redisConnections reg)] (reg, True) of
        (reg', notRemoved) \<Rightarrow>
          if notRemoved then (reg', Some (Error ''Could not remove ''))
          else (reg', None))"

subsection \<open>login (lines 253-315)\<close>

text \<open>
  \<^verbatim>\<open>login\<close> creates a client, registers listeners and returns; everything else happens
  when the client emits an event or answers a command. The state of one call holds the
  closure's variables (\<open>callback_pending\<close>: \<^verbatim>\<open>callback\<close> is not null), what the client has
  been asked (\<open>connect_listener\<close>: \<^verbatim>\<open>selectDatabase\<close> listens to \<^verbatim>\<open>connect\<close>; the commands
  whose reply is outstanding) and the registry. \<open>callback_calls\<close> is a ghost list of the
  arguments the caller's callback was called with. \<^verbatim>\<open>parseInt(dbIndex || 0)\<close> does not
  throw on a number, a string or undefined, so the \<^verbatim>\<open>catch\<close> branch is not modelled.
\<close>

datatype client_event =
    OnError js_error
  | OnEnd
  | OnConnect
  | AuthReply "js_error option"
  | SelectReply "js_error option"

record 'v login_state =
  registry :: "'v registry"
  the_client :: "'v client"
  callback_pending :: bool
  isPushed :: bool
  connect_listener :: bool
  auth_sent :: bool
  selects_sent :: nat
  callback_calls :: "js_error option list"

text \<open>
  The synchronous part of \<^verbatim>\<open>login\<close>. \<open>c\<close> is the object \<^verbatim>\<open>new Redis({...})\<close> returns,
  with its label set.
\<close>

definition login :: "'v client \<Rightarrow> string option \<Rightarrow> 'v registry \<Rightarrow> 'v login_state" where
  "login c password_arg reg =
     \<lparr>registry = reg, the_client = c, callback_pending = True, isPushed = False,
      connect_listener = (\<not> truthy password_arg), auth_sent = truthy password_arg,
      selects_sent = 0, callback_calls = []\<rparr>"

definition onceCallback :: "js_error option \<Rightarrow> 'v login_state \<Rightarrow> 'v login_state" where
  "onceCallback err s =
     (if callback_pending s
      then s\<lparr>callback_pending := False, callback_calls := callback_calls s @ [err]\<rparr>
      else s)"

text \<open>
  What the listeners and reply callbacks do. A reply to a command that was not sent does
  not occur and changes nothing.
\<close>

definition on_event :: "client_event \<Rightarrow> 'v login_state \<Rightarrow> 'v login_state" where
  "on_event ev s =
     (case ev of
        OnError err \<Rightarrow>
          onceCallback (Some err)
            (if isPushed s then s
             else s\<lparr>registry := (registry s)\<lparr>quits := quits (registry s) @ [the_client s]\<rparr>\<rparr>)
      | OnEnd \<Rightarrow> s
      | OnConnect \<Rightarrow>
          if connect_listener s then s\<lparr>selects_sent := Suc (selects_sent s)\<rparr> else s
      | AuthReply reply \<Rightarrow>
          if auth_sent s then
            (case reply of
               Some err \<Rightarrow> onceCallback (Some err) (s\<lparr>auth_sent := False\<rparr>)
             | None \<Rightarrow> s\<lparr>auth_sent := False, connect_listener := True\<rparr>)
          else s
      | SelectReply reply \<Rightarrow>
          if 0 < selects_sent s then
            (case reply of
               Some err \<Rightarrow> onceCallback (Some err) (s\<lparr>selects_sent := selects_sent s - 1\<rparr>)
             | None \<Rightarrow>
                 onceCallback None
                   (s\<lparr>selects_sent := selects_sent s - 1,
                      registry := (registry s)\<lparr>redisConnections :=
                                      redisConnections (registry s) @ [the_client s]\<rparr>,
                      isPushed := True\<rparr>))
          else s)"

fun events :: "client_event list \<Rightarrow> 'v login_state \<Rightarrow> 'v login_state" where
  "events [] s = s"
| "events (ev # evs) s = events evs (on_event ev s)"

text \<open>The events that report a failed handshake: a transport error, a failed
  authenticate, a failed database select.\<close>

fun failure_of :: "client_event \<Rightarrow> js_error option" where
  "failure_of (OnError err) = Some err"
| "failure_of (AuthReply (Some err)) = Some err"
| "failure_of (SelectReply (Some err)) = Some err"
| "failure_of _ = None"

subsection \<open>The event loop around the gate\<close>

text \<open>
  Between two requests time passes and armed timers fire. A run of the gate is a list of
  events: a request's token being verified, a timer's callback running (only once it is
  due, and possibly late), and the clock moving forward. \<open>verdicts\<close> records what each
  verification settled to, in order.
\<close>

datatype event = Verify string | TimerFires nat | ClockAdvances nat

record world =
  clock :: int
  gate :: gate_state
  verdicts :: "(string \<times> bool promise) list"

definition fire_timer :: "nat \<Rightarrow> int \<Rightarrow> gate_state \<Rightarrow> gate_state" where
  "fire_timer i now st =
     (if i < length (timers st) then
        (if fst (timers st ! i) \<le> now then
           st\<lparr>usedTokens := usedTokens st - {snd (timers st ! i)},
              timers := take i (timers st) @ drop (Suc i) (timers st)\<rparr>
         else st)
      else st)"

definition step :: "jwt_lib \<Rightarrow> string \<Rightarrow> event \<Rightarrow> world \<Rightarrow> world" where
  "step lib jwtSecret ev w =
     (case ev of
        Verify token \<Rightarrow>
          (case jwtVerify lib jwtSecret (clock w) token (gate w) of
             (r, g) \<Rightarrow> w\<lparr>gate := g, verdicts := verdicts w @ [(token, r)]\<rparr>)
      | TimerFires i \<Rightarrow> w\<lparr>gate := fire_timer i (clock w) (gate w)\<rparr>
      | ClockAdvances d \<Rightarrow> w\<lparr>clock := clock w + int d\<rparr>)"

fun run :: "jwt_lib \<Rightarrow> string \<Rightarrow> event list \<Rightarrow> world \<Rightarrow> world" where
  "run lib jwtSecret [] w = w"
| "run lib jwtSecret (ev # evs) w = run lib jwtSecret evs (step lib jwtSecret ev w)"

text \<open>The process at start: no token spent, no timer armed.\<close>

definition start :: "int \<Rightarrow> world" where
  "start t0 = \<lparr>clock = t0, gate = \<lparr>usedTokens = {}, timers = [], verifications = 0\<rparr>,
              verdicts = []\<rparr>"

text \<open>What the verifications of one token settled to, in order.\<close>

definition verdicts_of :: "string \<Rightarrow> world \<Rightarrow> bool promise list" where
  "verdicts_of token w = map snd (filter (\<lambda>v. fst v = token) (verdicts w))"

subsection \<open>Invariants of the spent-token set\<close>

text \<open>
  A token is unspent when it is not in \<^verbatim>\<open>usedTokens\<close> and no armed timer is for it. Once
  a single-use token with payload \<open>c\<close> has been accepted, it is in the set or its
  eviction time \<open>(exp + 10) * 1000\<close> has passed, and every timer for it is due no earlier
  than that time.
\<close>

definition unspent :: "string \<Rightarrow> gate_state \<Rightarrow> bool" where
  "unspent token st = (token \<notin> usedTokens st \<and> token \<notin> snd ` set (timers st))"

definition spent :: "string \<Rightarrow> jwt_claims \<Rightarrow> int \<Rightarrow> gate_state \<Rightarrow> bool" where
  "spent token c now st =
     ((token \<in> usedTokens st \<or> (\<exists>e. exp c = Some e \<and> (e + 10) * 1000 \<le> now)) \<and>
      (\<forall>x \<in> set (timers st).
         snd x = token \<longrightarrow> (\<exists>e. exp c = Some e \<and> (e + 10) * 1000 \<le> fst x)))"

subsection \<open>A sample library\<close>

text \<open>
  The payload \<^verbatim>\<open>jwtSign\<close> builds at second \<open>t\<close>, and a library that knows five tokens
  signed with the secret \<^verbatim>\<open>s3cret\<close>: the bearer and the query token of a session issued at
  second 0, a single-use token that expires after 10000000 seconds, a reusable token of
  another issuer, and a token whose payload is \<^verbatim>\<open>null\<close>.
\<close>

definition session_claims :: "int \<Rightarrow> bool \<Rightarrow> jwt_claims" where
  "session_claims t su =
     \<lparr>iss = Some ''Redis Commander'', sub = Some ''Session Token'', iat = Some t,
      nbf = None, exp = Some (t + 60), singleUse = su\<rparr>"

definition far_claims :: jwt_claims where
  "far_claims =
     \<lparr>iss = Some ''Redis Commander'', sub = Some ''Session Token'', iat = Some 0,
      nbf = None, exp = Some 10000000, singleUse = True\<rparr>"

definition foreign_claims :: jwt_claims where
  "foreign_claims =
     \<lparr>iss = Some ''Another Service'', sub = Some ''Session Token'', iat = Some 0,
      nbf = None, exp = Some 60, singleUse = False\<rparr>"

definition sample_lib :: jwt_lib where
  "sample_lib =
     \<lparr>jws_sign = (\<lambda>secret payload. secret @ (if singleUse payload then ''.q'' else ''.b'')),
      jws_decode = (\<lambda>token.
        if token = ''s3cret.q'' then Some (Object (session_claims 0 True))
        else if token = ''s3cret.b'' then Some (Object (session_claims 0 False))
        else if token = ''s3cret.far'' then Some (Object far_claims)
        else if token = ''s3cret.foreign'' then Some (Object foreign_claims)
        else if token = ''s3cret.null'' then Some Null
        else None),
      jws_verify = (\<lambda>token secret. take (length secret) token = secret)\<rparr>"

subsection \<open>Sample configuration and requests\<close>

text \<open>
  A configuration with the principal \<^verbatim>\<open>admin\<close> and the plaintext password \<^verbatim>\<open>secret\<close>, one
  without a principal, a runtime that has \<^verbatim>\<open>crypto.timingSafeEqual\<close>, a sign-in form,
  and requests that carry a token in the body, in the query or in the header.
\<close>

definition admin_config :: httpServerOptions where
  "admin_config = \<lparr>username = Some ''admin'', password = Some ''secret'', passwordHash = None\<rparr>"

definition open_config :: httpServerOptions where
  "open_config = \<lparr>username = None, password = None, passwordHash = None\<rparr>"

definition node_runtime :: runtime where
  "node_runtime = \<lparr>timingSafe = True, bcrypt_compare = (\<lambda>data hash. False)\<rparr>"

definition signin_form :: "string option \<Rightarrow> string option \<Rightarrow> request" where
  "signin_form u p =
     \<lparr>body = Some (\<lambda>field. if field = ''username'' then u
                           else if field = ''password'' then p else None),
      query = (\<lambda>field. None), authorization = None\<rparr>"

definition body_request :: "string \<Rightarrow> request" where
  "body_request token =
     \<lparr>body = Some (\<lambda>field. if field = tokenField then Some token else None),
      query = (\<lambda>field. None), authorization = None\<rparr>"

definition query_request :: "string \<Rightarrow> request" where
  "query_request token =
     \<lparr>body = Some (\<lambda>field. None),
      query = (\<lambda>field. if field = tokenField then Some token else None),
      authorization = None\<rparr>"

definition header_request :: "string option \<Rightarrow> request" where
  "header_request h = \<lparr>body = Some (\<lambda>field. None), query = (\<lambda>field. None), authorization = h\<rparr>"

definition fresh_gate :: gate_state where
  "fresh_gate = \<lparr>usedTokens = {}, timers = [], verifications = 0\<rparr>"

definition loaded_request :: request where
  "loaded_request =
     \<lparr>body = Some (\<lambda>field. if field = tokenField then Some ''s3cret.b'' else None),
      query = (\<lambda>field. if field = tokenField then Some ''from the query'' else None),
      authorization = Some ''Bearer from-the-header''\<rparr>"

subsection \<open>Vocabulary of the registry claims\<close>

text \<open>A connection matches when all three comparisons of \<^verbatim>\<open>logout\<close> hold.\<close>

definition matches :: "('v \<Rightarrow> 'v \<Rightarrow> bool) \<Rightarrow> 'v \<Rightarrow> 'v \<Rightarrow> 'v \<Rightarrow> 'v client \<Rightarrow> bool" where
  "matches loose_eq hostname port db instance =
     (loose_eq (options_host instance) hostname \<and> loose_eq (options_port instance) port \<and>
      loose_eq (options_db instance) db)"

text \<open>
  An event is delivered when a listener or a reply callback runs for it: any error, the
  reply to an authenticate or select that was sent.
\<close>

fun delivered :: "client_event \<Rightarrow> 'v login_state \<Rightarrow> bool" where
  "delivered (OnError err) s = True"
| "delivered (AuthReply r) s = auth_sent s"
| "delivered (SelectReply r) s = (0 < selects_sent s)"
| "delivered OnConnect s = connect_listener s"
| "delivered OnEnd s = True"

text \<open>Sample connections: two of them agree on host, port and database.\<close>

definition cache1 :: "string client" where
  "cache1 = \<lparr>label = ''cache1'', options_host = ''localhost'', options_port = ''6379'',
             options_db = ''0''\<rparr>"

definition cache2 :: "string client" where
  "cache2 = \<lparr>label = ''cache2'', options_host = ''localhost'', options_port = ''6379'',
             options_db = ''0''\<rparr>"

definition queue1 :: "string client" where
  "queue1 = \<lparr>label = ''queue1'', options_host = ''10.0.0.7'', options_port = ''6380'',
             options_db = ''2''\<rparr>"

definition sample_registry :: "string registry" where
  "sample_registry = \<lparr>redisConnections = [queue1, cache1, cache2], quits = []\<rparr>"

subsection \<open>Invariant of a login call\<close>

text \<open>
  While the caller's callback has not been called, \<^verbatim>\<open>callback\<close> is not null and nothing has
  been pushed; and while the authenticate reply is outstanding, \<^verbatim>\<open>selectDatabase\<close> does
  not listen and no select has been sent.
\<close>

definition handshake_inv :: "'v registry \<Rightarrow> 'v login_state \<Rightarrow> bool" where
  "handshake_inv reg s =
     ((callback_pending s \<longleftrightarrow> callback_calls s = []) \<and>
      (callback_calls s = [] \<longrightarrow> redisConnections (registry s) = redisConnections reg) \<and>
      (auth_sent s \<longrightarrow> \<not> connect_listener s \<and> selects_sent s = 0))"

definition new_client :: "string client" where
  "new_client = \<lparr>label = ''cache3'', options_host = ''10.0.0.9'', options_port = ''6379'',
                 options_db = ''0''\<rparr>"

subsection \<open>Theorems: equalStrings\<close>

lemma equalStrings_concat: "equalStrings True a b = Inr (a @ b = b @ a)"
  by (simp add: equalStrings_def timingSafeEqual_def)

lemma equalStrings_fallback: "equalStrings False a b = Inr (a = b)"
  by (simp add: equalStrings_def)

lemma equalStrings_refl: "equalStrings has a a = Inr True"
  by (simp add: equalStrings_def timingSafeEqual_def)

text \<open>
  C1. The claim: for all strings \<open>a\<close> and \<open>b\<close>, \<^verbatim>\<open>equalStrings(a, b)\<close>, which compares
  \<open>a + b\<close> with \<open>b + a\<close> by the timing-safe primitive, is true if and only if \<open>a\<close> equals
  \<open>b\<close>. The code returns true exactly when the two concatenations agree
  (\<open>equalStrings_concat\<close>), and two different strings can commute: each is a repetition
  of a common word, or one of them is empty. So \<^verbatim>\<open>equalStrings('', 'secret')\<close> and
  \<^verbatim>\<open>equalStrings('a', 'aa')\<close> are both true, while the fallback \<^verbatim>\<open>a === b\<close> of the same
  function is false on them.
\<close>

theorem equalStrings_accepts_unequal:
  "equalStrings True '''' ''secret'' = Inr True \<and>
   equalStrings True ''a'' ''aa'' = Inr True \<and>
   equalStrings False '''' ''secret'' = Inr False \<and>
   equalStrings False ''a'' ''aa'' = Inr False"
  by (simp add: equalStrings_def timingSafeEqual_def)

subsection \<open>Theorems: single-use tokens\<close>

lemma jwt_verify_Decoded:
  assumes "jwt_verify lib tok k opts now = Decoded c"
  shows "jws_decode lib tok = Some (Object c)" and "\<And>e. exp c = Some e \<Longrightarrow> now div 1000 < e"
  using assms
  by (auto simp: jwt_verify_def Let_def split: if_splits option.splits jwt_payload.splits)

lemma jwt_verify_throws:
  assumes "jwt_verify lib tok k opts now = Throws err"
  shows "jws_decode lib tok = Some Null" and "jws_verify lib tok k" and "err = TypeError"
  using assms
  by (auto simp: jwt_verify_def Let_def split: if_splits option.splits jwt_payload.splits)

lemma jwt_verify_expired:
  assumes "jws_decode lib tok = Some (Object c)" "exp c = Some e" "e \<le> now div 1000"
  shows "\<exists>err. jwt_verify lib tok k opts now = Fails err"
  using assms
  by (auto simp: jwt_verify_def Let_def split: if_splits option.splits jwt_payload.splits)

lemma jwtVerify_other_unspent:
  assumes "tok' \<noteq> tok" "unspent tok st"
  shows "unspent tok (snd (jwtVerify lib k now tok' st))"
  using assms
  by (auto simp: jwtVerify_def unspent_def Let_def setTimeout_def split: verify_outcome.splits jwt_payload.splits option.splits)

lemma fire_timer_unspent:
  assumes "unspent tok st"
  shows "unspent tok (fire_timer i now st)"
  using assms
  by (auto simp: fire_timer_def unspent_def dest!: in_set_takeD in_set_dropD)

lemma jwtVerify_other_spent:
  assumes "tok' \<noteq> tok" "spent tok c now st"
  shows "spent tok c now (snd (jwtVerify lib k now tok' st))"
  using assms
  by (auto simp: jwtVerify_def spent_def Let_def setTimeout_def split: verify_outcome.splits jwt_payload.splits option.splits)

lemma jwtVerify_spent_False:
  assumes "jws_decode lib tok = Some (Object c)" "singleUse c" "spent tok c now st"
  shows "jwtVerify lib k now tok st = (Resolved False, st\<lparr>verifications := Suc (verifications st)\<rparr>)"
proof (cases "jwt_verify lib tok k session_options now")
  case (Throws err)
  with jwt_verify_throws[OF this] assms(1) show ?thesis by simp
next
  case (Fails err)
  then show ?thesis by (simp add: jwtVerify_def)
next
  case (Decoded c')
  from jwt_verify_Decoded(1)[OF Decoded] assms(1) have cc: "c' = c" by simp
  have "tok \<in> usedTokens st"
  proof (rule ccontr)
    assume "tok \<notin> usedTokens st"
    with assms(3) obtain e where e: "exp c = Some e" "(e + 10) * 1000 \<le> now"
      by (auto simp: spent_def)
    from jwt_verify_Decoded(2)[OF Decoded] cc e(1) have "now div 1000 < e" by simp
    with e(2) show False unfolding ring_distribs by linarith
  qed
  with Decoded cc assms(2) show ?thesis by (simp add: jwtVerify_def)
qed

lemma fire_timer_spent:
  assumes "spent tok c now st"
  shows "spent tok c now (fire_timer i now st)"
proof (cases "i < length (timers st) \<and> fst (timers st ! i) \<le> now")
  case False
  with assms show ?thesis by (auto simp: fire_timer_def)
next
  case True
  let ?x = "timers st ! i"
  have mem: "?x \<in> set (timers st)" using True by simp
  have sub: "set (take i (timers st) @ drop (Suc i) (timers st)) \<subseteq> set (timers st)"
    by (auto dest: in_set_takeD in_set_dropD)
  show ?thesis
  proof (cases "snd ?x = tok")
    case tk: True
    with assms mem obtain e where "exp c = Some e" "(e + 10) * 1000 \<le> fst ?x"
      unfolding spent_def by blast
    with True have "\<exists>e. exp c = Some e \<and> (e + 10) * 1000 \<le> now" by force
    with assms sub True show ?thesis
      unfolding spent_def fire_timer_def by auto
  next
    case False
    with assms sub True show ?thesis
      unfolding spent_def fire_timer_def by auto
  qed
qed

lemma spent_mono: "spent tok c now st \<Longrightarrow> now \<le> now' \<Longrightarrow> spent tok c now' st"
  unfolding spent_def by force

lemma jwtVerify_first:
  assumes v: "jwt_verify lib tok k session_options now = Decoded c"
    and su: "singleUse c" and un: "unspent tok st"
    and bound: "\<And>e. exp c = Some e \<Longrightarrow> (e + 10) * 1000 - now \<le> TIMEOUT_MAX"
  shows "fst (jwtVerify lib k now tok st) = Resolved True"
    and "spent tok c now (snd (jwtVerify lib k now tok st))"
proof -
  from un have nu: "tok \<notin> usedTokens st" and nt: "\<forall>x \<in> set (timers st). snd x \<noteq> tok"
    by (auto simp: unspent_def)
  show "fst (jwtVerify lib k now tok st) = Resolved True"
    using v su nu by (simp add: jwtVerify_def Let_def split: option.splits)
  show "spent tok c now (snd (jwtVerify lib k now tok st))"
  proof (cases "exp c")
    case None
    with v su nu nt show ?thesis by (auto simp: jwtVerify_def Let_def spent_def)
  next
    case (Some e)
    from jwt_verify_Decoded(2)[OF v Some] have "now div 1000 < e" .
    then have "now < e * 1000" by linarith
    then have lo: "1 \<le> (e + 10) * 1000 - now" unfolding ring_distribs by linarith
    from bound[OF Some] have hi: "(e + 10) * 1000 - now \<le> TIMEOUT_MAX" .
    from v su nu nt Some lo hi show ?thesis
      by (auto simp: jwtVerify_def Let_def spent_def setTimeout_def)
  qed
qed


lemma run_append: "run lib k (xs @ ys) w = run lib k ys (run lib k xs w)"
  by (induction xs arbitrary: w) auto

lemma step_Verify:
  "step lib k (Verify t) w =
     w\<lparr>gate := snd (jwtVerify lib k (clock w) t (gate w)),
       verdicts := verdicts w @ [(t, fst (jwtVerify lib k (clock w) t (gate w)))]\<rparr>"
  by (simp add: step_def case_prod_beta)

lemma step_unspent:
  assumes "ev \<noteq> Verify tok" "unspent tok (gate w)"
  shows "unspent tok (gate (step lib k ev w))"
    and "verdicts_of tok (step lib k ev w) = verdicts_of tok w"
proof -
  show "unspent tok (gate (step lib k ev w))"
  proof (cases ev)
    case (Verify t)
    with assms(1) have "t \<noteq> tok" by simp
    from jwtVerify_other_unspent[OF this assms(2)] Verify show ?thesis
      by (simp add: step_Verify)
  next
    case (TimerFires i)
    with fire_timer_unspent[OF assms(2)] show ?thesis by (simp add: step_def)
  next
    case (ClockAdvances d)
    with assms(2) show ?thesis by (simp add: step_def)
  qed
  show "verdicts_of tok (step lib k ev w) = verdicts_of tok w"
    using assms(1) by (cases ev) (auto simp: step_def verdicts_of_def case_prod_beta)
qed

lemma run_unspent:
  assumes "Verify tok \<notin> set evs" "unspent tok (gate w)"
  shows "unspent tok (gate (run lib k evs w)) \<and> verdicts_of tok (run lib k evs w) = verdicts_of tok w"
  using assms
proof (induction evs arbitrary: w)
  case Nil
  then show ?case by simp
next
  case (Cons ev evs)
  from Cons.prems(1) have ne: "ev \<noteq> Verify tok" and rest: "Verify tok \<notin> set evs" by auto
  from step_unspent[OF ne Cons.prems(2)] Cons.IH[OF rest] show ?case by simp
qed

lemma step_spent:
  assumes d: "jws_decode lib tok = Some (Object c)" and su: "singleUse c"
    and sp: "spent tok c (clock w) (gate w)"
  shows "spent tok c (clock (step lib k ev w)) (gate (step lib k ev w))"
    and "verdicts_of tok (step lib k ev w) =
           verdicts_of tok w @ (if ev = Verify tok then [Resolved False] else [])"
proof -
  have spc: "spent tok c (clock w) (g\<lparr>verifications := n\<rparr>)" if "spent tok c (clock w) g" for g n
    using that by (simp add: spent_def)
  show "spent tok c (clock (step lib k ev w)) (gate (step lib k ev w))"
  proof (cases ev)
    case (Verify t)
    show ?thesis
    proof (cases "t = tok")
      case True
      with Verify jwtVerify_spent_False[OF d su sp, of k] spc[OF sp] show ?thesis
        by (simp add: step_Verify)
    next
      case False
      from jwtVerify_other_spent[OF False sp, of lib k] Verify show ?thesis
        by (simp add: step_Verify)
    qed
  next
    case (TimerFires i)
    with fire_timer_spent[OF sp] show ?thesis by (simp add: step_def)
  next
    case (ClockAdvances n)
    with spent_mono[OF sp, of "clock w + int n"] show ?thesis by (simp add: step_def)
  qed
  show "verdicts_of tok (step lib k ev w) =
           verdicts_of tok w @ (if ev = Verify tok then [Resolved False] else [])"
  proof (cases ev)
    case (Verify t)
    show ?thesis
    proof (cases "t = tok")
      case True
      with Verify jwtVerify_spent_False[OF d su sp, of k] show ?thesis
        by (simp add: step_Verify verdicts_of_def)
    next
      case False
      with Verify show ?thesis by (simp add: step_Verify verdicts_of_def)
    qed
  qed (simp_all add: step_def verdicts_of_def)
qed

lemma run_spent:
  assumes "jws_decode lib tok = Some (Object c)" "singleUse c" "spent tok c (clock w) (gate w)"
  shows "verdicts_of tok (run lib k evs w) =
           verdicts_of tok w @ replicate (count_list evs (Verify tok)) (Resolved False)"
  using assms(3)
proof (induction evs arbitrary: w)
  case Nil
  then show ?case by simp
next
  case (Cons ev evs)
  note st = step_spent[OF assms(1,2) Cons.prems, of k ev]
  from Cons.IH[OF st(1)] st(2) show ?case
    by (simp add: replicate_app_Cons_same)
qed

lemma unspent_start: "unspent tok (gate (start t0))"
  by (simp add: unspent_def start_def)

text \<open>
  Single-use tokens within the range of the timer. A run starts with the process,
  verifies other tokens, fires timers and advances the clock (\<open>pre\<close>), then verifies the
  token for the first time, and goes on in any way (\<open>post\<close>). If at its first
  verification \<^verbatim>\<open>jwt.verify\<close> accepts the token, the token is single-use, and the delay of
  its eviction timer, \<open>(exp + 10) * 1000 - now\<close>, is at most 2147483647 milliseconds, then
  the first verification settles to true and every later verification of the same token
  string settles to false, before the expiry (the token is in \<^verbatim>\<open>usedTokens\<close>) and after
  it (the token has expired by the time a timer may evict it). Every token \<^verbatim>\<open>jwtSign\<close>
  issues lives 60 seconds and meets the bound.
\<close>

lemma single_use_once:
  assumes "Verify tok \<notin> set pre"
    and "jwt_verify lib tok k session_options (clock (run lib k pre (start t0))) = Decoded c"
    and "singleUse c"
    and "\<forall>e. exp c = Some e \<longrightarrow> (e + 10) * 1000 - clock (run lib k pre (start t0)) \<le> TIMEOUT_MAX"
  shows "verdicts_of tok (run lib k (pre @ Verify tok # post) (start t0)) =
           Resolved True # replicate (count_list post (Verify tok)) (Resolved False)"
proof -
  let ?w1 = "run lib k pre (start t0)"
  let ?w2 = "step lib k (Verify tok) ?w1"
  from run_unspent[OF assms(1) unspent_start, of lib k t0]
  have un: "unspent tok (gate ?w1)" and v1: "verdicts_of tok ?w1 = []"
    by (simp_all add: verdicts_of_def start_def)
  from assms(4) have b: "\<And>e. exp c = Some e \<Longrightarrow> (e + 10) * 1000 - clock ?w1 \<le> TIMEOUT_MAX"
    by blast
  note first = jwtVerify_first[OF assms(2,3) un b]
  have v2: "verdicts_of tok ?w2 = [Resolved True]"
    using first(1) v1 by (simp add: step_Verify verdicts_of_def)
  have sp: "spent tok c (clock ?w2) (gate ?w2)"
    using first(2) by (simp add: step_Verify)
  have "run lib k (pre @ Verify tok # post) (start t0) = run lib k post ?w2"
    by (simp add: run_append)
  with run_spent[OF jwt_verify_Decoded(1)[OF assms(2)] assms(3) sp, of k post] v2
  show ?thesis by simp
qed

lemma single_use_once_example:
  "verdicts_of ''s3cret.q''
     (run sample_lib ''s3cret''
        ([Verify ''s3cret.b'', ClockAdvances 5000] @ Verify ''s3cret.q'' #
         [ClockAdvances 1000, Verify ''s3cret.q'', ClockAdvances 64000, TimerFires 0,
          Verify ''s3cret.q''])
        (start 0)) =
   [Resolved True, Resolved False, Resolved False]"
  using single_use_once [of "''s3cret.q''" "[Verify ''s3cret.b'', ClockAdvances 5000]"
      sample_lib "''s3cret''" 0 "session_claims 0 True"
      "[ClockAdvances 1000, Verify ''s3cret.q'', ClockAdvances 64000, TimerFires 0,
        Verify ''s3cret.q'']"]
  by (simp add: step_def start_def jwtVerify_def jwt_verify_def sample_lib_def
      session_claims_def session_options_def TIMEOUT_MAX_def)

text \<open>
  C2. The claim: a single-use token that is validly signed and unexpired verifies on its
  first verification and is rejected on every later one, even before its expiry. The
  code means to keep the token in \<^verbatim>\<open>usedTokens\<close> until 10 seconds after its expiry: it
  arms the eviction timer with the delay \<open>(exp + 10) * 1000 - now\<close>. A delay above
  2147483647 milliseconds does not fit a timer; \<^verbatim>\<open>setTimeout\<close> then runs the callback
  after 1 millisecond, the token leaves \<^verbatim>\<open>usedTokens\<close> long before it expires, and it
  verifies again. The token below is validly signed, single-use and unexpired at both
  verifications, and both settle to true.
\<close>

theorem single_use_token_replays:
  "jwt_verify sample_lib ''s3cret.far'' ''s3cret'' session_options 0 = Decoded far_claims \<and>
   jwt_verify sample_lib ''s3cret.far'' ''s3cret'' session_options 1 = Decoded far_claims \<and>
   singleUse far_claims \<and>
   verdicts_of ''s3cret.far''
     (run sample_lib ''s3cret''
        [Verify ''s3cret.far'', ClockAdvances 1, TimerFires 0, Verify ''s3cret.far'']
        (start 0)) =
   [Resolved True, Resolved True]"
  by (simp add: verdicts_of_def step_def start_def jwtVerify_def jwt_verify_def sample_lib_def
      far_claims_def session_options_def setTimeout_def TIMEOUT_MAX_def fire_timer_def)

subsection \<open>Theorems: signing in\<close>

lemma truthy_simps: "truthy None = False" "truthy (Some s) = (s \<noteq> [])"
  by (simp_all add: truthy_def)

lemma plaintext_signin:
  assumes "truthy (username opts)" "truthy (password opts)" "\<not> truthy (passwordHash opts)"
    and "body req = Some b" "truthy (b ''username'') \<or> truthy (b ''password'')"
  shows "authenticate rt opts lib k now req st =
           (Resolved (String (b ''username'') = String (username opts) \<and>
                      (if timingSafe rt
                       then String (b ''password'') @ String (password opts) =
                            String (password opts) @ String (b ''password'')
                       else String (b ''password'') = String (password opts))), st)"
  using assms
  by (auto simp: authenticate_def auth_disabled_def password_signin_def equalStrings_def
      timingSafeEqual_def Let_def)

text \<open>
  C3. The claim: with a username and a plaintext password configured, \<^verbatim>\<open>authenticate\<close> on a
  supplied username and password is true if and only if both equal the configured ones.
  The password is compared by \<^verbatim>\<open>equalStrings\<close>, so the code accepts the right username
  with any password that commutes with the configured one (\<open>plaintext_signin\<close>). With
  \<^verbatim>\<open>admin\<close> and \<^verbatim>\<open>secret\<close> configured, the form \<^verbatim>\<open>username=admin&password=\<close> signs in.
\<close>

theorem signin_accepts_empty_password:
  "authenticate node_runtime admin_config lib k now (signin_form (Some ''admin'') (Some '''')) st =
     (Resolved True, st)"
  by (simp add: authenticate_def auth_disabled_def password_signin_def equalStrings_def
      timingSafeEqual_def node_runtime_def admin_config_def signin_form_def truthy_def String_def)

lemma signin_rejects_wrong:
  "authenticate node_runtime admin_config lib k now (signin_form (Some ''admin'') (Some ''wrong'')) st =
     (Resolved False, st)"
  "authenticate node_runtime admin_config lib k now (signin_form (Some ''nope'') (Some ''secret'')) st =
     (Resolved False, st)"
  "authenticate node_runtime admin_config lib k now (signin_form (Some ''admin'') (Some ''secret'')) st =
     (Resolved True, st)"
  by (simp_all add: authenticate_def auth_disabled_def password_signin_def equalStrings_def
      timingSafeEqual_def node_runtime_def admin_config_def signin_form_def truthy_def String_def)

text \<open>
  C8. When no principal is configured (the username is undefined or empty, or both the
  password and the password hash are), \<^verbatim>\<open>authenticate\<close> settles to true for every
  request, whatever credentials it carries, and the token middleware calls \<^verbatim>\<open>next()\<close>
  for every request; neither reads a token or changes the state of the gate.
\<close>

theorem no_principal_admits:
  assumes "\<not> truthy (username opts) \<or>
           (\<not> truthy (password opts) \<and> \<not> truthy (passwordHash opts))"
  shows "authenticate rt opts lib k now req st = (Resolved True, st) \<and>
         token_middleware opts lib k now req st = (Next, st)"
  using assms by (auto simp: authenticate_def token_middleware_def auth_disabled_def)

theorem no_principal_admits_witness:
  "authenticate node_runtime open_config sample_lib ''s3cret'' 0
      (signin_form (Some '''') (Some '''')) fresh_gate = (Resolved True, fresh_gate) \<and>
   token_middleware open_config sample_lib ''s3cret'' 0 (header_request None) fresh_gate =
      (Next, fresh_gate)"
  using no_principal_admits [of open_config node_runtime sample_lib "''s3cret''" 0
      "signin_form (Some '''') (Some '''')" fresh_gate]
    no_principal_admits [of open_config node_runtime sample_lib "''s3cret''" 0
      "header_request None" fresh_gate]
  by (simp add: open_config_def truthy_def)

lemma jwtVerify_settles:
  "fst (jwtVerify lib k now token st) =
     (case jwt_verify lib token k session_options now of
        Throws err \<Rightarrow> Rejected err
      | Fails err \<Rightarrow> Resolved False
      | Decoded c \<Rightarrow> Resolved (singleUse c \<longrightarrow> token \<notin> usedTokens st))"
  by (simp add: jwtVerify_def Let_def split: verify_outcome.splits)

lemma jwtVerify_failure_resolves_false:
  assumes "jwt_verify lib token k session_options now = Fails err"
  shows "jwtVerify lib k now token st =
           (Resolved False, st\<lparr>verifications := Suc (verifications st)\<rparr>)"
  using assms by (simp add: jwtVerify_def)

lemma jwtVerify_rejects_iff:
  "(\<exists>err. fst (jwtVerify lib k now token st) = Rejected err) \<longleftrightarrow>
     (token \<noteq> [] \<and> jws_decode lib token = Some Null \<and> jws_verify lib token k)"
  by (auto simp: jwtVerify_def jwt_verify_def Let_def
      split: option.splits jwt_payload.splits if_splits)

text \<open>
  C9. The claim: for every token string \<^verbatim>\<open>jwtVerify\<close> resolves to a boolean and never
  rejects. Every error that \<^verbatim>\<open>jwt.verify\<close> hands to the callback does resolve to false
  (\<open>jwtVerify_failure_resolves_false\<close>). But the executor calls \<^verbatim>\<open>jwt.verify\<close> without a
  \<^verbatim>\<open>try\<close>, and \<^verbatim>\<open>jwt.verify\<close> throws on a token whose signature verifies and whose payload
  is \<^verbatim>\<open>null\<close>. On such a token the promise rejects, and the middleware, which has no
  \<^verbatim>\<open>catch\<close>, never answers the request.
\<close>

theorem jwtVerify_rejects_null_payload:
  "jwtVerify sample_lib ''s3cret'' 0 ''s3cret.null'' fresh_gate =
     (Rejected TypeError, fresh_gate\<lparr>verifications := 1\<rparr>) \<and>
   token_middleware admin_config sample_lib ''s3cret'' 0 (query_request ''s3cret.null'')
       fresh_gate =
     (Unhandled TypeError, fresh_gate\<lparr>verifications := 1\<rparr>)"
  by (simp add: token_middleware_def auth_disabled_def admin_config_def extract_token_def
      query_request_def tokenField_def truthy_def or_empty_def jwtVerify_def jwt_verify_def
      sample_lib_def fresh_gate_def)

subsection \<open>Theorems: the token middleware\<close>

lemma jwt_verify_nonempty: "jwt_verify lib token k opts now = Decoded c \<Longrightarrow> token \<noteq> []"
  by (auto simp: jwt_verify_def split: if_splits)

lemma jwtVerify_reusable:
  assumes "jwt_verify lib token k session_options now = Decoded c" "\<not> singleUse c"
  shows "jwtVerify lib k now token st =
           (Resolved True, st\<lparr>verifications := Suc (verifications st)\<rparr>)"
  using assms by (simp add: jwtVerify_def)

lemma extract_token_body:
  assumes "body req = Some b" "truthy (b tokenField)"
  shows "extract_token req = b tokenField"
  using assms by (simp add: extract_token_def)

lemma extract_token_query:
  assumes "\<not> (case body req of None \<Rightarrow> False | Some b \<Rightarrow> truthy (b tokenField))"
    and "truthy (query req tokenField)"
  shows "extract_token req = query req tokenField"
  using assms by (simp add: extract_token_def)

lemma extract_token_header:
  assumes "\<not> (case body req of None \<Rightarrow> False | Some b \<Rightarrow> truthy (b tokenField))"
    and "\<not> truthy (query req tokenField)"
  shows "extract_token req = bearer_token (authorization req)"
  using assms by (simp add: extract_token_def)

lemma middleware_verifies:
  assumes "\<not> auth_disabled opts" "extract_token req = Some token" "token \<noteq> []"
    and "jwtVerify lib k now token st = (Resolved success, st')"
  shows "token_middleware opts lib k now req st =
           (if success then Next else Unauthorized ''Unauthorized - Token Invalid or Expired'', st')"
  using assms by (simp add: token_middleware_def truthy_def or_empty_def)

lemma middleware_missing:
  assumes "\<not> auth_disabled opts" "\<not> truthy (extract_token req)"
  shows "token_middleware opts lib k now req st =
           (Unauthorized ''Unauthorized - Missing Token'', st)"
  using assms by (simp add: token_middleware_def)

text \<open>
  C10 (amended). A token without the single-use flag that is validly signed and
  unexpired, and that carries the issuer and the subject \<^verbatim>\<open>jwtVerify\<close> asks for and is
  not before its \<^verbatim>\<open>nbf\<close> time, verifies in every state of the gate, so however often it
  was verified before, and the verification leaves the spent-token set and the timers
  untouched. With a principal configured, the middleware admits a request that presents
  the token in the body field or in the query parameter.
\<close>

theorem reusable_token_verifies_every_time:
  assumes "token \<noteq> []"
    and "jws_decode lib token = Some (Object c)"
    and "jws_verify lib token k"
    and "\<forall>e. exp c = Some e \<longrightarrow> now div 1000 < e"
    and "\<forall>n. nbf c = Some n \<longrightarrow> n \<le> now div 1000"
    and "iss c = Some ''Redis Commander''"
    and "sub c = Some ''Session Token''"
    and "\<not> singleUse c"
  shows "jwtVerify lib k now token st =
           (Resolved True, st\<lparr>verifications := Suc (verifications st)\<rparr>) \<and>
         (\<not> auth_disabled opts \<longrightarrow>
            token_middleware opts lib k now (body_request token) st =
              (Next, st\<lparr>verifications := Suc (verifications st)\<rparr>) \<and>
            token_middleware opts lib k now (query_request token) st =
              (Next, st\<lparr>verifications := Suc (verifications st)\<rparr>))"
proof -
  have d: "jwt_verify lib token k session_options now = Decoded c"
    using assms(1-7)
    by (auto simp: jwt_verify_def session_options_def Let_def split: option.splits)
  note v = jwtVerify_reusable[OF d assms(8), of st]
  have b: "extract_token (body_request token) = Some token"
    using assms(1) by (simp add: extract_token_def body_request_def truthy_def)
  have q: "extract_token (query_request token) = Some token"
    using assms(1) by (simp add: extract_token_def query_request_def truthy_def)
  from v middleware_verifies[OF _ b assms(1) v] middleware_verifies[OF _ q assms(1) v]
  show ?thesis by simp
qed

lemma split_ws_no_space:
  "list_all (\<lambda>c. \<not> is_space c) t \<Longrightarrow> split_ws r cur t = [cur @ t]"
  by (induction t arbitrary: r cur) auto

lemma is_Bearer_Bearer: "is_Bearer ''Bearer''"
  by (simp add: is_Bearer_def)

lemma bearer_token_plain:
  assumes "list_all (\<lambda>c. \<not> is_space c) t"
  shows "bearer_token (Some (''Bearer '' @ t)) = Some t"
proof -
  have "split_ws False [] (''Bearer '' @ t) = [''Bearer'', t]"
    using split_ws_no_space[OF assms, of True "[]"] by (simp add: is_space_def)
  then show ?thesis by (simp add: bearer_token_def or_empty_def is_Bearer_Bearer)
qed

lemma bearer_token_absent: "bearer_token None = None" "bearer_token (Some []) = None"
  by (simp_all add: bearer_token_def or_empty_def is_Bearer_def)

lemma split_ws_False:
  "split_ws False cur s =
     (cur @ takeWhile (\<lambda>c. \<not> is_space c) s) #
     (case dropWhile (\<lambda>c. \<not> is_space c) s of [] \<Rightarrow> [] | c # rest \<Rightarrow> split_ws True [] rest)"
  by (induction s arbitrary: cur) auto

lemma split_ws_True:
  "split_ws True [] s = split_ws False [] (dropWhile is_space s)"
  by (induction s) auto

lemma dropWhile_not_space_head:
  "dropWhile (\<lambda>c. \<not> is_space c) s = c # rest \<Longrightarrow> is_space c"
  by (metis (mono_tags, lifting) dropWhile_eq_Cons_conv)

text \<open>
  The two pieces the handlers read: the first piece of the header is what precedes its
  first white space, and \<^verbatim>\<open>authorization[1] || ''\<close> is what lies between the first run of
  white space and the next.
\<close>

lemma bearer_token_pieces:
  "bearer_token header =
     (if is_Bearer (takeWhile (\<lambda>c. \<not> is_space c) (or_empty header))
      then Some (takeWhile (\<lambda>c. \<not> is_space c)
                  (dropWhile is_space (dropWhile (\<lambda>c. \<not> is_space c) (or_empty header))))
      else None)"
proof -
  let ?h = "or_empty header"
  let ?ns = "\<lambda>c. \<not> is_space c"
  have second: "(case (case dropWhile ?ns ?h of [] \<Rightarrow> [] | c # rest \<Rightarrow> split_ws True [] rest) of
                   [] \<Rightarrow> [] | x # _ \<Rightarrow> x) =
                takeWhile ?ns (dropWhile is_space (dropWhile ?ns ?h))"
  proof (cases "dropWhile ?ns ?h")
    case Nil
    show ?thesis unfolding Nil by simp
  next
    case (Cons c rest)
    from dropWhile_not_space_head[OF Cons] have "is_space c" .
    with Cons show ?thesis
      by (simp add: split_ws_True split_ws_False[of "[]" "dropWhile is_space rest"])
  qed
  show ?thesis
    unfolding bearer_token_def
    by (subst split_ws_False) (simp add: second)
qed

lemma is_space_iff:
  "is_space c \<longleftrightarrow>
     c \<in> {CHR 0x09, CHR 0x0A, CHR 0x0B, CHR 0x0C, CHR 0x0D, CHR 0x20, CHR 0xA0}"
  by (auto simp: is_space_def)

lemma ci_all2:
  assumes "length xs = length ys"
  shows "list_all2 (\<lambda>c p. c = fst p \<or> c = snd p) s (zip xs ys) \<longleftrightarrow>
           length s = length xs \<and> (\<forall>i<length xs. s ! i = xs ! i \<or> s ! i = ys ! i)"
  using assms by (auto simp: list_all2_conv_all_nth)

lemma is_Bearer_iff:
  "is_Bearer s \<longleftrightarrow>
     length s = 6 \<and> (\<forall>i<6. s ! i = ''bearer'' ! i \<or> s ! i = ''BEARER'' ! i)"
  unfolding is_Bearer_def
  by (subst ci_all2) (simp_all add: eval_nat_numeral)

lemma header_token:
  assumes "case body req of None \<Rightarrow> True | Some b \<Rightarrow> \<not> truthy (b tokenField)"
    and "\<not> truthy (query req tokenField)"
  shows
    "(let ws = (\<lambda>c. c \<in> {CHR 0x09, CHR 0x0A, CHR 0x0B, CHR 0x0C, CHR 0x0D, CHR 0x20, CHR 0xA0});
          h = (case authorization req of None \<Rightarrow> [] | Some v \<Rightarrow> v);
          scheme = takeWhile (\<lambda>c. \<not> ws c) h;
          credentials = takeWhile (\<lambda>c. \<not> ws c) (dropWhile ws (dropWhile (\<lambda>c. \<not> ws c) h));
          is_bearer = (length scheme = 6 \<and>
                       (\<forall>i<6. scheme ! i = ''bearer'' ! i \<or> scheme ! i = ''BEARER'' ! i))
      in extract_token req = (if is_bearer then Some credentials else None))"
proof -
  have ws: "(\<lambda>c. c \<in> {CHR 0x09, CHR 0x0A, CHR 0x0B, CHR 0x0C, CHR 0x0D, CHR 0x20, CHR 0xA0}) =
              is_space"
    by (rule ext) (simp add: is_space_iff)
  have h: "(case authorization req of None \<Rightarrow> [] | Some v \<Rightarrow> v) = or_empty (authorization req)"
    by (simp add: or_empty_def)
  from assms have "extract_token req = bearer_token (authorization req)"
    by (auto simp: extract_token_def split: option.splits)
  then show ?thesis
    unfolding Let_def ws h
    by (simp only: bearer_token_pieces is_Bearer_iff)
qed

lemma middleware_order:
  assumes "\<not> auth_disabled opts"
  shows
    "(\<forall>b. body req = Some b \<and> truthy (b tokenField) \<longrightarrow> extract_token req = b tokenField) \<and>
     ((case body req of None \<Rightarrow> True | Some b \<Rightarrow> \<not> truthy (b tokenField)) \<longrightarrow>
        (truthy (query req tokenField) \<longrightarrow> extract_token req = query req tokenField) \<and>
        (\<not> truthy (query req tokenField) \<longrightarrow>
           extract_token req = bearer_token (authorization req) \<and>
           (\<forall>t. authorization req = Some (''Bearer '' @ t) \<and> list_all (\<lambda>c. \<not> is_space c) t \<longrightarrow>
                extract_token req = Some t))) \<and>
     (\<not> truthy (extract_token req) \<longrightarrow>
        token_middleware opts lib k now req st =
          (Unauthorized ''Unauthorized - Missing Token'', st)) \<and>
     (\<forall>token st'. extract_token req = Some token \<and> token \<noteq> [] \<longrightarrow>
        (jwtVerify lib k now token st = (Resolved False, st') \<longrightarrow>
           token_middleware opts lib k now req st =
             (Unauthorized ''Unauthorized - Token Invalid or Expired'', st')) \<and>
        (jwtVerify lib k now token st = (Resolved True, st') \<longrightarrow>
           token_middleware opts lib k now req st = (Next, st')))"
proof (intro conjI allI impI)
  fix b assume "body req = Some b \<and> truthy (b tokenField)"
  then show "extract_token req = b tokenField" by (simp add: extract_token_body)
next
  assume "case body req of None \<Rightarrow> True | Some b \<Rightarrow> \<not> truthy (b tokenField)"
    and "truthy (query req tokenField)"
  then show "extract_token req = query req tokenField"
    by (auto simp: extract_token_def split: option.splits)
next
  assume nb: "case body req of None \<Rightarrow> True | Some b \<Rightarrow> \<not> truthy (b tokenField)"
    and nq: "\<not> truthy (query req tokenField)"
  then show h: "extract_token req = bearer_token (authorization req)"
    by (auto simp: extract_token_def split: option.splits)
  fix t assume "authorization req = Some (''Bearer '' @ t) \<and> list_all (\<lambda>c. \<not> is_space c) t"
  with h bearer_token_plain[of t] show "extract_token req = Some t" by simp
next
  assume "\<not> truthy (extract_token req)"
  with assms show "token_middleware opts lib k now req st =
          (Unauthorized ''Unauthorized - Missing Token'', st)"
    by (rule middleware_missing)
next
  fix token st'
  assume e: "extract_token req = Some token \<and> token \<noteq> []"
    and v: "jwtVerify lib k now token st = (Resolved False, st')"
  from middleware_verifies[OF assms _ _ v] e
  show "token_middleware opts lib k now req st =
             (Unauthorized ''Unauthorized - Token Invalid or Expired'', st')" by simp
next
  fix token st'
  assume e: "extract_token req = Some token \<and> token \<noteq> []"
    and v: "jwtVerify lib k now token st = (Resolved True, st')"
  from middleware_verifies[OF assms _ _ v] e
  show "token_middleware opts lib k now req st = (Next, st')" by simp
qed

lemma middleware_header:
  assumes "\<not> auth_disabled opts"
  shows
    "(case body req of None \<Rightarrow> True | Some b \<Rightarrow> \<not> truthy (b tokenField)) \<and>
      \<not> truthy (query req tokenField) \<longrightarrow>
        (let ws = (\<lambda>c. c \<in> {CHR 0x09, CHR 0x0A, CHR 0x0B, CHR 0x0C, CHR 0x0D, CHR 0x20, CHR 0xA0});
             h = (case authorization req of None \<Rightarrow> [] | Some v \<Rightarrow> v);
             scheme = takeWhile (\<lambda>c. \<not> ws c) h;
             credentials = takeWhile (\<lambda>c. \<not> ws c) (dropWhile ws (dropWhile (\<lambda>c. \<not> ws c) h));
             is_bearer = (length scheme = 6 \<and>
                          (\<forall>i<6. scheme ! i = ''bearer'' ! i \<or> scheme ! i = ''BEARER'' ! i))
         in extract_token req = (if is_bearer then Some credentials else None) \<and>
            (\<not> is_bearer \<or> credentials = [] \<longrightarrow>
               token_middleware opts lib k now req st =
                 (Unauthorized ''Unauthorized - Missing Token'', st)))"
proof (rule impI)
  assume a: "(case body req of None \<Rightarrow> True | Some b \<Rightarrow> \<not> truthy (b tokenField)) \<and>
      \<not> truthy (query req tokenField)"
  define ws where "ws = (\<lambda>c. c \<in> {CHR 0x09, CHR 0x0A, CHR 0x0B, CHR 0x0C, CHR 0x0D, CHR 0x20, CHR 0xA0})"
  define h where "h = (case authorization req of None \<Rightarrow> [] | Some v \<Rightarrow> v)"
  define scheme where "scheme = takeWhile (\<lambda>c. \<not> ws c) h"
  define credentials where
    "credentials = takeWhile (\<lambda>c. \<not> ws c) (dropWhile ws (dropWhile (\<lambda>c. \<not> ws c) h))"
  define is_bearer where
    "is_bearer \<longleftrightarrow> length scheme = 6 \<and>
                  (\<forall>i<6. scheme ! i = ''bearer'' ! i \<or> scheme ! i = ''BEARER'' ! i)"
  have e: "extract_token req = (if is_bearer then Some credentials else None)"
    using header_token[OF a[THEN conjunct1] a[THEN conjunct2]]
    unfolding Let_def is_bearer_def credentials_def scheme_def h_def ws_def .
  have m: "token_middleware opts lib k now req st =
             (Unauthorized ''Unauthorized - Missing Token'', st)"
    if "\<not> is_bearer \<or> credentials = []"
  proof -
    from that e have "\<not> truthy (extract_token req)" by (auto simp: truthy_def)
    with assms show ?thesis by (rule middleware_missing)
  qed
  from e m show "let ws = (\<lambda>c. c \<in> {CHR 0x09, CHR 0x0A, CHR 0x0B, CHR 0x0C, CHR 0x0D, CHR 0x20, CHR 0xA0});
             h = (case authorization req of None \<Rightarrow> [] | Some v \<Rightarrow> v);
             scheme = takeWhile (\<lambda>c. \<not> ws c) h;
             credentials = takeWhile (\<lambda>c. \<not> ws c) (dropWhile ws (dropWhile (\<lambda>c. \<not> ws c) h));
             is_bearer = (length scheme = 6 \<and>
                          (\<forall>i<6. scheme ! i = ''bearer'' ! i \<or> scheme ! i = ''BEARER'' ! i))
         in extract_token req = (if is_bearer then Some credentials else None) \<and>
            (\<not> is_bearer \<or> credentials = [] \<longrightarrow>
               token_middleware opts lib k now req st =
                 (Unauthorized ''Unauthorized - Missing Token'', st))"
    unfolding Let_def is_bearer_def credentials_def scheme_def h_def ws_def by blast
qed

text \<open>
  C6. With a principal configured, the middleware takes the token from the body field
  when that is truthy, else from the query parameter when that is truthy, else from the
  \<^verbatim>\<open>Authorization\<close> header. The header gives a token only when its first piece, up to
  the first white space, is \<^verbatim>\<open>Bearer\<close> in any mix of cases; the token is then the second
  piece, between the first run of white space and the next (\<^verbatim>\<open>Bearer t\<close> gives \<open>t\<close>). A
  header of another scheme, an absent header and a header without a second piece give
  no token. Without a token the middleware answers 401 "Missing Token" and the state is
  unchanged: \<^verbatim>\<open>jwtVerify\<close> was not called. With a token it answers 401 "Token Invalid or
  Expired" when \<^verbatim>\<open>jwtVerify\<close> resolves to false, and calls \<^verbatim>\<open>next()\<close> when it resolves
  to true.
\<close>

theorem token_middleware_contract:
  assumes "\<not> auth_disabled opts"
  shows
    "((\<forall>b. body req = Some b \<and> truthy (b tokenField) \<longrightarrow> extract_token req = b tokenField) \<and>
     ((case body req of None \<Rightarrow> True | Some b \<Rightarrow> \<not> truthy (b tokenField)) \<longrightarrow>
        (truthy (query req tokenField) \<longrightarrow> extract_token req = query req tokenField) \<and>
        (\<not> truthy (query req tokenField) \<longrightarrow>
           extract_token req = bearer_token (authorization req) \<and>
           (\<forall>t. authorization req = Some (''Bearer '' @ t) \<and> list_all (\<lambda>c. \<not> is_space c) t \<longrightarrow>
                extract_token req = Some t))) \<and>
     (\<not> truthy (extract_token req) \<longrightarrow>
        token_middleware opts lib k now req st =
          (Unauthorized ''Unauthorized - Missing Token'', st)) \<and>
     (\<forall>token st'. extract_token req = Some token \<and> token \<noteq> [] \<longrightarrow>
        (jwtVerify lib k now token st = (Resolved False, st') \<longrightarrow>
           token_middleware opts lib k now req st =
             (Unauthorized ''Unauthorized - Token Invalid or Expired'', st')) \<and>
        (jwtVerify lib k now token st = (Resolved True, st') \<longrightarrow>
           token_middleware opts lib k now req st = (Next, st')))) \<and>
     ((case body req of None \<Rightarrow> True | Some b \<Rightarrow> \<not> truthy (b tokenField)) \<and>
      \<not> truthy (query req tokenField) \<longrightarrow>
        (let ws = (\<lambda>c. c \<in> {CHR 0x09, CHR 0x0A, CHR 0x0B, CHR 0x0C, CHR 0x0D, CHR 0x20, CHR 0xA0});
             h = (case authorization req of None \<Rightarrow> [] | Some v \<Rightarrow> v);
             scheme = takeWhile (\<lambda>c. \<not> ws c) h;
             credentials = takeWhile (\<lambda>c. \<not> ws c) (dropWhile ws (dropWhile (\<lambda>c. \<not> ws c) h));
             is_bearer = (length scheme = 6 \<and>
                          (\<forall>i<6. scheme ! i = ''bearer'' ! i \<or> scheme ! i = ''BEARER'' ! i))
         in extract_token req = (if is_bearer then Some credentials else None) \<and>
            (\<not> is_bearer \<or> credentials = [] \<longrightarrow>
               token_middleware opts lib k now req st =
                 (Unauthorized ''Unauthorized - Missing Token'', st))))"
  using middleware_order[OF assms] middleware_header[OF assms] by (rule conjI)

lemma not_disabled_admin: "\<not> auth_disabled admin_config"
  by (simp add: auth_disabled_def admin_config_def truthy_def)

theorem token_middleware_contract_witness:
  "extract_token loaded_request = Some ''s3cret.b'' \<and>
   token_middleware admin_config sample_lib ''s3cret'' 0 loaded_request fresh_gate =
     (Next, fresh_gate\<lparr>verifications := 1\<rparr>) \<and>
   extract_token (header_request (Some ''Bearer s3cret.b'')) = Some ''s3cret.b'' \<and>
   token_middleware admin_config sample_lib ''s3cret'' 0 (header_request None) fresh_gate =
     (Unauthorized ''Unauthorized - Missing Token'', fresh_gate) \<and>
   token_middleware admin_config sample_lib ''s3cret'' 0 (query_request ''forged'') fresh_gate =
     (Unauthorized ''Unauthorized - Token Invalid or Expired'', fresh_gate\<lparr>verifications := 1\<rparr>) \<and>
   token_middleware admin_config sample_lib ''s3cret'' 0
      (header_request (Some ''Basic s3cret.b'')) fresh_gate =
     (Unauthorized ''Unauthorized - Missing Token'', fresh_gate) \<and>
   extract_token (header_request (Some ''bearer   s3cret.b extra'')) = Some ''s3cret.b'' \<and>
   token_middleware admin_config sample_lib ''s3cret'' 0
      (header_request (Some ''Bearer'')) fresh_gate =
     (Unauthorized ''Unauthorized - Missing Token'', fresh_gate)"
proof -
  note c = token_middleware_contract [OF not_disabled_admin, THEN conjunct1]
  have b: "body loaded_request = Some (\<lambda>field. if field = tokenField then Some ''s3cret.b'' else None)"
    by (simp add: loaded_request_def)
  have e1: "extract_token loaded_request = Some ''s3cret.b''"
    using c [of loaded_request] b by (simp add: truthy_def)
  have v1: "jwtVerify sample_lib ''s3cret'' 0 ''s3cret.b'' fresh_gate =
              (Resolved True, fresh_gate\<lparr>verifications := 1\<rparr>)"
    by (simp add: jwtVerify_def jwt_verify_def sample_lib_def session_claims_def
        session_options_def fresh_gate_def)
  have m1: "token_middleware admin_config sample_lib ''s3cret'' 0 loaded_request fresh_gate =
              (Next, fresh_gate\<lparr>verifications := 1\<rparr>)"
    using c [of loaded_request sample_lib "''s3cret''" 0 fresh_gate] e1 v1 by blast
  have h: "case body (header_request x) of None \<Rightarrow> True | Some b \<Rightarrow> \<not> truthy (b tokenField)"
          "\<not> truthy (query (header_request x) tokenField)" for x
    by (simp_all add: header_request_def truthy_def)
  have a2: "authorization (header_request (Some ''Bearer s3cret.b'')) = Some (''Bearer '' @ ''s3cret.b'')"
    by (simp add: header_request_def)
  have sp: "list_all (\<lambda>c. \<not> is_space c) ''s3cret.b''"
    by (simp add: is_space_def)
  have e2: "extract_token (header_request (Some ''Bearer s3cret.b'')) = Some ''s3cret.b''"
    using c [of "header_request (Some ''Bearer s3cret.b'')"] h a2 sp by blast
  have e3: "\<not> truthy (extract_token (header_request None))"
    using c [of "header_request None"] h [of None]
    by (simp add: header_request_def bearer_token_absent truthy_def)
  have m3: "token_middleware admin_config sample_lib ''s3cret'' 0 (header_request None) fresh_gate =
              (Unauthorized ''Unauthorized - Missing Token'', fresh_gate)"
    using c [of "header_request None" sample_lib "''s3cret''" 0 fresh_gate] e3 by blast
  have e4: "extract_token (query_request ''forged'') = Some ''forged''"
    by (simp add: extract_token_def query_request_def truthy_def)
  have v4: "jwtVerify sample_lib ''s3cret'' 0 ''forged'' fresh_gate =
              (Resolved False, fresh_gate\<lparr>verifications := 1\<rparr>)"
    by (simp add: jwtVerify_def jwt_verify_def sample_lib_def fresh_gate_def)
  have m4: "token_middleware admin_config sample_lib ''s3cret'' 0 (query_request ''forged'') fresh_gate =
              (Unauthorized ''Unauthorized - Token Invalid or Expired'', fresh_gate\<lparr>verifications := 1\<rparr>)"
    using c [of "query_request ''forged''" sample_lib "''s3cret''" 0 fresh_gate] e4 v4 by blast
  have hh: "(case body (header_request x) of None \<Rightarrow> True | Some b \<Rightarrow> \<not> truthy (b tokenField)) \<and>
          \<not> truthy (query (header_request x) tokenField)" for x
    by (simp add: header_request_def truthy_def)
  have lower: "length ''bearer'' = 6 \<and> (\<forall>i<6. ''bearer'' ! i = ''bearer'' ! i \<or> ''bearer'' ! i = ''BEARER'' ! i)"
    by simp
  have upper: "length ''Bearer'' = 6 \<and> (\<forall>i<6. ''Bearer'' ! i = ''bearer'' ! i \<or> ''Bearer'' ! i = ''BEARER'' ! i)"
    using is_Bearer_iff[of "''Bearer''"] by (simp add: is_Bearer_def)
  have n1: "token_middleware admin_config sample_lib ''s3cret'' 0
      (header_request (Some ''Basic s3cret.b'')) fresh_gate =
     (Unauthorized ''Unauthorized - Missing Token'', fresh_gate)"
    using token_middleware_contract [where opts = admin_config and req = "header_request (Some ''Basic s3cret.b'')" and lib = sample_lib
               and k = "''s3cret''" and now = 0 and st = fresh_gate, OF not_disabled_admin,
               THEN conjunct2, unfolded Let_def, rule_format, OF hh, THEN conjunct2]
    by (simp add: header_request_def)
  have n2: "extract_token (header_request (Some ''bearer   s3cret.b extra'')) = Some ''s3cret.b''"
    using token_middleware_contract [where opts = admin_config and req = "header_request (Some ''bearer   s3cret.b extra'')" and lib = sample_lib
               and k = "''s3cret''" and now = 0 and st = fresh_gate, OF not_disabled_admin,
               THEN conjunct2, unfolded Let_def, rule_format, OF hh, THEN conjunct1]
      lower
    by (simp add: header_request_def)
  have n3: "token_middleware admin_config sample_lib ''s3cret'' 0
      (header_request (Some ''Bearer'')) fresh_gate =
     (Unauthorized ''Unauthorized - Missing Token'', fresh_gate)"
    using token_middleware_contract [where opts = admin_config and req = "header_request (Some ''Bearer'')" and lib = sample_lib
               and k = "''s3cret''" and now = 0 and st = fresh_gate, OF not_disabled_admin,
               THEN conjunct2, unfolded Let_def, rule_format, OF hh, THEN conjunct2]
    by (simp add: header_request_def)
  from e1 m1 e2 m3 m4 n1 n2 n3 show ?thesis by (intro conjI)
qed

theorem reusable_token_verifies_every_time_witness:
  "jwtVerify sample_lib ''s3cret'' 0 ''s3cret.b''
      (gate (run sample_lib ''s3cret'' [Verify ''s3cret.b'', Verify ''s3cret.b''] (start 0))) =
     (Resolved True, \<lparr>usedTokens = {}, timers = [], verifications = 3\<rparr>) \<and>
   token_middleware admin_config sample_lib ''s3cret'' 0 (query_request ''s3cret.b'') fresh_gate =
     (Next, fresh_gate\<lparr>verifications := 1\<rparr>) \<and>
   token_middleware admin_config sample_lib ''s3cret'' 0 (body_request ''s3cret.b'') fresh_gate =
     (Next, fresh_gate\<lparr>verifications := 1\<rparr>)"
proof -
  have h: "''s3cret.b'' \<noteq> []"
    "jws_decode sample_lib ''s3cret.b'' = Some (Object (session_claims 0 False))"
    "jws_verify sample_lib ''s3cret.b'' ''s3cret''"
    "\<forall>e. exp (session_claims 0 False) = Some e \<longrightarrow> 0 div 1000 < e"
    "\<forall>n. nbf (session_claims 0 False) = Some n \<longrightarrow> n \<le> 0 div 1000"
    "iss (session_claims 0 False) = Some ''Redis Commander''"
    "sub (session_claims 0 False) = Some ''Session Token''"
    "\<not> singleUse (session_claims 0 False)"
    by (simp_all add: sample_lib_def session_claims_def)
  note t = reusable_token_verifies_every_time [OF h]
  have g: "gate (run sample_lib ''s3cret'' [Verify ''s3cret.b'', Verify ''s3cret.b''] (start 0)) =
             \<lparr>usedTokens = {}, timers = [], verifications = 2\<rparr>"
    by (simp add: step_def start_def jwtVerify_def jwt_verify_def sample_lib_def
        session_claims_def session_options_def)
  have a: "jwtVerify sample_lib ''s3cret'' 0 ''s3cret.b''
      (gate (run sample_lib ''s3cret'' [Verify ''s3cret.b'', Verify ''s3cret.b''] (start 0))) =
     (Resolved True, \<lparr>usedTokens = {}, timers = [], verifications = 3\<rparr>)"
    using t [of "gate (run sample_lib ''s3cret'' [Verify ''s3cret.b'', Verify ''s3cret.b''] (start 0))",
        THEN conjunct1]
    unfolding g by simp
  note m = t [of fresh_gate admin_config, THEN conjunct2, rule_format, OF not_disabled_admin]
  from a m show ?thesis by (simp add: fresh_gate_def)
qed

text \<open>
  C10, as stated, fails for a token of another issuer: it is validly signed, unexpired
  and without the single-use flag, and \<^verbatim>\<open>jwtVerify\<close> resolves to false, because
  \<^verbatim>\<open>jwt.verify\<close> is called with the issuer and the subject of a session token.
\<close>

theorem foreign_issuer_counterexample:
  "jws_decode sample_lib ''s3cret.foreign'' = Some (Object foreign_claims) \<and>
   jws_verify sample_lib ''s3cret.foreign'' ''s3cret'' \<and>
   exp foreign_claims = Some 60 \<and>
   singleUse foreign_claims = False \<and>
   jwtVerify sample_lib ''s3cret'' 0 ''s3cret.foreign'' fresh_gate =
     (Resolved False, fresh_gate\<lparr>verifications := 1\<rparr>)"
  by (simp add: jwtVerify_def jwt_verify_def sample_lib_def foreign_claims_def
      session_options_def fresh_gate_def)

lemma jwt_sign_session:
  "jwt_sign lib su k session_options 60 t = jws_sign lib k (session_claims (t div 1000) su)"
  by (simp add: jwt_sign_def session_claims_def session_options_def Let_def)

lemma jwtVerify_expired:
  assumes "jws_decode lib tok = Some (Object c)" "exp c = Some e" "e \<le> now div 1000"
  shows "jwtVerify lib k now tok st = (Resolved False, st\<lparr>verifications := Suc (verifications st)\<rparr>)"
  using jwt_verify_expired[OF assms, of k session_options]
  by (auto simp: jwtVerify_def)

text \<open>
  C7. For a library whose parser returns the payload that was signed and whose signature
  check accepts its own signature: the bearer token \<^verbatim>\<open>jwtSign\<close> issues at time \<open>t\<close>
  verifies at once, and at every time before the second \<open>t div 1000 + 60\<close>; from 60
  seconds after \<open>t\<close> on it is rejected, under every secret, that is whether or not the
  signature verifies.
\<close>

theorem session_round_trip:
  assumes "jws_decode lib (jws_sign lib k (session_claims (t div 1000) False)) =
             Some (Object (session_claims (t div 1000) False))"
    and "jws_verify lib (jws_sign lib k (session_claims (t div 1000) False)) k"
    and "jws_sign lib k (session_claims (t div 1000) False) \<noteq> []"
  shows "\<exists>bearer. jwtSign lib k False t = Resolved bearer \<and>
           fst (jwtVerify lib k t bearer st) = Resolved True \<and>
           (\<forall>now. now div 1000 < t div 1000 + 60 \<longrightarrow>
               fst (jwtVerify lib k now bearer st) = Resolved True) \<and>
           (\<forall>now k'. t + 60000 \<le> now \<longrightarrow>
               fst (jwtVerify lib k' now bearer st) = Resolved False)"
proof -
  let ?c = "session_claims (t div 1000) False"
  let ?b = "jws_sign lib k ?c"
  have s: "jwtSign lib k False t = Resolved ?b"
    by (simp add: jwtSign_def jwt_sign_session)
  have ok: "jwt_verify lib ?b k session_options now = Decoded ?c"
    if "now div 1000 < t div 1000 + 60" for now
    using assms that
    by (simp add: jwt_verify_def session_claims_def session_options_def Let_def)
  have good: "fst (jwtVerify lib k now ?b st) = Resolved True"
    if "now div 1000 < t div 1000 + 60" for now
    using jwtVerify_reusable[OF ok[OF that], of st] by (simp add: session_claims_def)
  have bad: "fst (jwtVerify lib k' now ?b st) = Resolved False" if "t + 60000 \<le> now" for now k'
  proof -
    from that have "(t + 60000) div 1000 \<le> now div 1000" by (rule zdiv_mono1) simp
    then have "t div 1000 + 60 \<le> now div 1000" by simp
    with jwtVerify_expired[OF assms(1), of "t div 1000 + 60" now k' st]
    show ?thesis by (simp add: session_claims_def)
  qed
  from s good bad show ?thesis by simp
qed

theorem session_round_trip_witness:
  "jwtSign sample_lib ''s3cret'' False 0 = Resolved ''s3cret.b'' \<and>
   fst (jwtVerify sample_lib ''s3cret'' 0 ''s3cret.b'' fresh_gate) = Resolved True \<and>
   fst (jwtVerify sample_lib ''s3cret'' 59999 ''s3cret.b'' fresh_gate) = Resolved True \<and>
   fst (jwtVerify sample_lib ''s3cret'' 60000 ''s3cret.b'' fresh_gate) = Resolved False"
  using session_round_trip [of sample_lib "''s3cret''" 0 fresh_gate]
  by (simp add: sample_lib_def session_claims_def jwtSign_def jwt_sign_def session_options_def)

subsection \<open>Theorems: logout\<close>

lemma logout_visit_removed:
  "logout_visit le h p d i (reg, False) = (reg, False)"
  by (simp add: logout_visit_def Let_def)

lemma fold_logout_removed:
  "fold (logout_visit le h p d) ks (reg, False) = (reg, False)"
  by (induction ks) (simp_all add: logout_visit_removed)

lemma fold_logout_nomatch:
  assumes "\<forall>k \<in> set ks. k < length (redisConnections reg) \<longrightarrow>
             \<not> matches le h p d (redisConnections reg ! k)"
  shows "fold (logout_visit le h p d) ks (reg, True) = (reg, True)"
  using assms
proof (induction ks)
  case Nil
  then show ?case by simp
next
  case (Cons k ks)
  then have "logout_visit le h p d k (reg, True) = (reg, True)"
    by (auto simp: logout_visit_def matches_def Let_def)
  with Cons show ?case by simp
qed

lemma logout_visit_match:
  assumes "i < length (redisConnections reg)" "matches le h p d (redisConnections reg ! i)"
  shows "logout_visit le h p d i (reg, True) =
           (reg\<lparr>redisConnections :=
                  take i (redisConnections reg) @ drop (Suc i) (redisConnections reg),
                quits := quits reg @ [redisConnections reg ! i]\<rparr>, False)"
  using assms by (simp add: logout_visit_def matches_def Let_def)

lemma fold_logout_first:
  assumes i: "i < length (redisConnections reg)"
    and m: "matches le h p d (redisConnections reg ! i)"
    and first: "\<forall>j < i. \<not> matches le h p d (redisConnections reg ! j)"
  shows "fold (logout_visit le h p d) [0..<length (redisConnections reg)] (reg, True) =
           (reg\<lparr>redisConnections :=
                  take i (redisConnections reg) @ drop (Suc i) (redisConnections reg),
                quits := quits reg @ [redisConnections reg ! i]\<rparr>, False)"
proof -
  let ?n = "length (redisConnections reg)"
  have split: "[0..<?n] = [0..<i] @ i # [Suc i..<?n]"
    using i by (metis less_imp_le_nat upt_add_eq_append upt_conv_Cons le0 le_add_diff_inverse)
  have before: "fold (logout_visit le h p d) [0..<i] (reg, True) = (reg, True)"
    using first by (intro fold_logout_nomatch) simp
  show ?thesis
    unfolding split
    by (simp add: before logout_visit_match[OF i m] fold_logout_removed)
qed

text \<open>
  C4. If no connection of the registry matches host, port and database, \<^verbatim>\<open>logout\<close> calls
  the callback with an error and leaves the registry as it was. If the connection at
  index \<open>i\<close> is the first that matches, \<^verbatim>\<open>logout\<close> removes exactly that connection, calls
  its \<^verbatim>\<open>quit()\<close> and no other, and calls the callback with no error.
\<close>

theorem logout_removes_first_match:
  "((\<forall>c \<in> set (redisConnections reg). \<not> matches loose_eq hostname port db c) \<longrightarrow>
      logout loose_eq hostname port db reg = (reg, Some (Error ''Could not remove ''))) \<and>
   (\<forall>i. i < length (redisConnections reg) \<and>
        matches loose_eq hostname port db (redisConnections reg ! i) \<and>
        (\<forall>j < i. \<not> matches loose_eq hostname port db (redisConnections reg ! j)) \<longrightarrow>
      logout loose_eq hostname port db reg =
        (reg\<lparr>redisConnections :=
               take i (redisConnections reg) @ drop (Suc i) (redisConnections reg),
             quits := quits reg @ [redisConnections reg ! i]\<rparr>, None))"
proof (intro conjI allI impI)
  assume "\<forall>c \<in> set (redisConnections reg). \<not> matches loose_eq hostname port db c"
  then have "fold (logout_visit loose_eq hostname port db)
               [0..<length (redisConnections reg)] (reg, True) = (reg, True)"
    by (intro fold_logout_nomatch) simp
  then show "logout loose_eq hostname port db reg = (reg, Some (Error ''Could not remove ''))"
    by (simp add: logout_def)
next
  fix i
  assume "i < length (redisConnections reg) \<and>
        matches loose_eq hostname port db (redisConnections reg ! i) \<and>
        (\<forall>j < i. \<not> matches loose_eq hostname port db (redisConnections reg ! j))"
  then have "fold (logout_visit loose_eq hostname port db)
               [0..<length (redisConnections reg)] (reg, True) =
        (reg\<lparr>redisConnections :=
               take i (redisConnections reg) @ drop (Suc i) (redisConnections reg),
             quits := quits reg @ [redisConnections reg ! i]\<rparr>, False)"
    by (intro fold_logout_first) simp_all
  then show "logout loose_eq hostname port db reg =
        (reg\<lparr>redisConnections :=
               take i (redisConnections reg) @ drop (Suc i) (redisConnections reg),
             quits := quits reg @ [redisConnections reg ! i]\<rparr>, None)"
    by (simp add: logout_def)
qed

theorem logout_removes_first_match_witness:
  "logout (=) ''localhost'' ''6379'' ''0'' sample_registry =
     (\<lparr>redisConnections = [queue1, cache2], quits = [cache1]\<rparr>, None) \<and>
   logout (=) ''localhost'' ''6379'' ''5'' sample_registry =
     (sample_registry, Some (Error ''Could not remove ''))"
proof -
  note t = logout_removes_first_match [of sample_registry "(=)" "''localhost''" "''6379''"]
  have m: "matches (=) ''localhost'' ''6379'' ''0'' cache1"
          "\<not> matches (=) ''localhost'' ''6379'' ''0'' queue1"
          "\<not> matches (=) ''localhost'' ''6379'' ''5'' queue1"
          "\<not> matches (=) ''localhost'' ''6379'' ''5'' cache1"
          "\<not> matches (=) ''localhost'' ''6379'' ''5'' cache2"
    by (simp_all add: matches_def cache1_def cache2_def queue1_def)
  have "1 < length (redisConnections sample_registry) \<and>
        matches (=) ''localhost'' ''6379'' ''0'' (redisConnections sample_registry ! 1) \<and>
        (\<forall>j < 1. \<not> matches (=) ''localhost'' ''6379'' ''0'' (redisConnections sample_registry ! j))"
    using m by (simp add: sample_registry_def)
  with t [of "''0''"] have a: "logout (=) ''localhost'' ''6379'' ''0'' sample_registry =
     (sample_registry\<lparr>redisConnections :=
               take 1 (redisConnections sample_registry) @ drop (Suc 1) (redisConnections sample_registry),
             quits := quits sample_registry @ [redisConnections sample_registry ! 1]\<rparr>, None)"
    by blast
  have "\<forall>c \<in> set (redisConnections sample_registry). \<not> matches (=) ''localhost'' ''6379'' ''5'' c"
    using m by (simp add: sample_registry_def)
  with t [of "''5''"] have b: "logout (=) ''localhost'' ''6379'' ''5'' sample_registry =
     (sample_registry, Some (Error ''Could not remove ''))"
    by blast
  from a b show ?thesis by (simp add: sample_registry_def)
qed

subsection \<open>Theorems: login\<close>

lemma events_append: "events (xs @ ys) s = events ys (events xs s)"
  by (induction xs arbitrary: s) auto

lemma handshake_inv_login: "handshake_inv reg (login c pw reg)"
  by (simp add: handshake_inv_def login_def)

lemma handshake_inv_step:
  assumes "handshake_inv reg s"
  shows "handshake_inv reg (on_event ev s)"
  using assms
  by (cases ev)
     (auto simp: handshake_inv_def on_event_def onceCallback_def split: option.splits)

lemma handshake_inv_events:
  "handshake_inv reg s \<Longrightarrow> handshake_inv reg (events evs s)"
  by (induction evs arbitrary: s) (auto intro: handshake_inv_step)

lemma settled_step:
  assumes "\<not> callback_pending s"
  shows "\<not> callback_pending (on_event ev s) \<and> callback_calls (on_event ev s) = callback_calls s"
  using assms
  by (cases ev) (auto simp: on_event_def onceCallback_def split: option.splits)

lemma settled_forever:
  assumes "\<not> callback_pending s"
  shows "callback_calls (events evs s) = callback_calls s"
  using assms
proof (induction evs arbitrary: s)
  case Nil
  then show ?case by simp
next
  case (Cons ev evs)
  from settled_step[OF Cons.prems, of ev] Cons.IH[of "on_event ev s"] show ?case by simp
qed

lemma failure_step:
  assumes "callback_pending s" "callback_calls s = []" "failure_of f = Some err" "delivered f s"
  shows "callback_calls (on_event f s) = [Some err]"
    and "\<not> callback_pending (on_event f s)"
    and "redisConnections (registry (on_event f s)) = redisConnections (registry s)"
  using assms
  by (cases f rule: failure_of.cases; simp add: on_event_def onceCallback_def)+

lemma no_push_step:
  assumes "ev \<noteq> SelectReply None"
  shows "redisConnections (registry (on_event ev s)) = redisConnections (registry s)"
  using assms
  by (cases ev) (auto simp: on_event_def onceCallback_def split: option.splits)

lemma no_push_events:
  assumes "SelectReply None \<notin> set evs"
  shows "redisConnections (registry (events evs s)) = redisConnections (registry s)"
  using assms
proof (induction evs arbitrary: s)
  case Nil
  then show ?case by simp
next
  case (Cons ev evs)
  then have "ev \<noteq> SelectReply None" "SelectReply None \<notin> set evs" by auto
  with no_push_step[of ev s] Cons.IH[of "on_event ev s"] show ?case by simp
qed

lemma deaf_step:
  assumes "\<not> auth_sent s" "\<not> connect_listener s" "selects_sent s = 0"
  shows "\<not> auth_sent (on_event ev s) \<and> \<not> connect_listener (on_event ev s) \<and>
         selects_sent (on_event ev s) = 0 \<and>
         redisConnections (registry (on_event ev s)) = redisConnections (registry s)"
  using assms
  by (cases ev) (auto simp: on_event_def onceCallback_def split: option.splits)

lemma deaf_forever:
  assumes "\<not> auth_sent s" "\<not> connect_listener s" "selects_sent s = 0"
  shows "redisConnections (registry (events evs s)) = redisConnections (registry s)"
  using assms
proof (induction evs arbitrary: s)
  case Nil
  then show ?case by simp
next
  case (Cons ev evs)
  from deaf_step[OF Cons.prems, of ev] Cons.IH[of "on_event ev s"] show ?case by simp
qed

lemma auth_failure_deaf:
  assumes "handshake_inv reg s" "auth_sent s"
  shows "\<not> auth_sent (on_event (AuthReply (Some e)) s) \<and>
         \<not> connect_listener (on_event (AuthReply (Some e)) s) \<and>
         selects_sent (on_event (AuthReply (Some e)) s) = 0"
  using assms by (auto simp: handshake_inv_def on_event_def onceCallback_def)

text \<open>
  What does hold when a failure (a transport error, a failed authenticate, a failed
  select) is delivered while the caller's callback has not been called: nothing has been
  pushed to the registry when the callback is called; the callback is called exactly
  once, with that error, whatever events follow; the registry's connections stay as they
  were as long as no later select succeeds; and after a failed authenticate they stay so
  for good, since \<^verbatim>\<open>selectDatabase\<close> is never registered.
\<close>

lemma failure_reported_once:
  assumes "callback_calls (events pre (login c pw reg)) = []"
    and "failure_of f = Some err"
    and "delivered f (events pre (login c pw reg))"
  shows "redisConnections (registry (events (pre @ [f]) (login c pw reg))) = redisConnections reg \<and>
         (\<forall>post. callback_calls (events (pre @ f # post) (login c pw reg)) = [Some err]) \<and>
         (\<forall>post. SelectReply None \<notin> set post \<longrightarrow>
            redisConnections (registry (events (pre @ f # post) (login c pw reg))) =
              redisConnections reg) \<and>
         (\<forall>post. (\<exists>e. f = AuthReply (Some e)) \<longrightarrow>
            redisConnections (registry (events (pre @ f # post) (login c pw reg))) =
              redisConnections reg)"
proof -
  let ?s1 = "events pre (login c pw reg)"
  let ?s2 = "on_event f ?s1"
  have inv: "handshake_inv reg ?s1"
    by (intro handshake_inv_events handshake_inv_login)
  with assms(1) have pend: "callback_pending ?s1"
    and same: "redisConnections (registry ?s1) = redisConnections reg"
    by (auto simp: handshake_inv_def)
  note fs = failure_step[OF pend assms(1) assms(2) assms(3)]
  have run: "events (pre @ f # post) (login c pw reg) = events post ?s2" for post
    by (simp add: events_append)
  have a: "redisConnections (registry (events (pre @ [f]) (login c pw reg))) = redisConnections reg"
    using fs(3) same by (simp add: events_append)
  have b: "callback_calls (events (pre @ f # post) (login c pw reg)) = [Some err]" for post
    using settled_forever[OF fs(2), of post] fs(1) by (simp add: run)
  have c: "redisConnections (registry (events (pre @ f # post) (login c pw reg))) = redisConnections reg"
    if "SelectReply None \<notin> set post" for post
    using no_push_events[OF that, of ?s2] fs(3) same by (simp add: run)
  have d: "redisConnections (registry (events (pre @ f # post) (login c pw reg))) = redisConnections reg"
    if "\<exists>e. f = AuthReply (Some e)" for post
  proof -
    from that obtain e where f: "f = AuthReply (Some e)" by blast
    with assms(3) have "auth_sent ?s1" by simp
    from auth_failure_deaf[OF inv this, of e] f
    have "\<not> auth_sent ?s2" "\<not> connect_listener ?s2" "selects_sent ?s2 = 0" by simp_all
    from deaf_forever[OF this, of post] fs(3) same show ?thesis by (simp add: run)
  qed
  from a b c d show ?thesis by blast
qed

lemma failure_reported_once_example:
  "callback_calls
     (events ([OnConnect] @ SelectReply (Some (Error ''ERR DB index is out of range'')) #
              [OnError (Error ''read ECONNRESET''), OnEnd])
        (login new_client None sample_registry)) =
     [Some (Error ''ERR DB index is out of range'')] \<and>
   redisConnections (registry
     (events ([OnConnect] @ SelectReply (Some (Error ''ERR DB index is out of range'')) #
              [OnError (Error ''read ECONNRESET''), OnEnd])
        (login new_client None sample_registry))) =
     redisConnections sample_registry \<and>
   callback_calls
     (events ([] @ AuthReply (Some (Error ''WRONGPASS'')) # [OnConnect, SelectReply None])
        (login new_client (Some ''hunter2'') sample_registry)) =
     [Some (Error ''WRONGPASS'')] \<and>
   redisConnections (registry
     (events ([] @ AuthReply (Some (Error ''WRONGPASS'')) # [OnConnect, SelectReply None])
        (login new_client (Some ''hunter2'') sample_registry))) =
     redisConnections sample_registry"
proof -
  have p1: "callback_calls (events [OnConnect] (login new_client None sample_registry)) = []"
    "delivered (SelectReply (Some (Error ''ERR DB index is out of range'')))
       (events [OnConnect] (login new_client None sample_registry))"
    by (simp_all add: login_def on_event_def truthy_def)
  have f1: "failure_of (SelectReply (Some (Error ''ERR DB index is out of range''))) =
              Some (Error ''ERR DB index is out of range'')"
    by simp
  have p2: "callback_calls (events [] (login new_client (Some ''hunter2'') sample_registry)) = []"
    "delivered (AuthReply (Some (Error ''WRONGPASS'')))
       (events [] (login new_client (Some ''hunter2'') sample_registry))"
    by (simp_all add: login_def truthy_def)
  have f2: "failure_of (AuthReply (Some (Error ''WRONGPASS''))) = Some (Error ''WRONGPASS'')"
    by simp
  note t1 = failure_reported_once [OF p1(1) f1 p1(2)]
  note t2 = failure_reported_once [OF p2(1) f2 p2(2)]
  note a = t1 [THEN conjunct2, THEN conjunct1, rule_format,
      of "[OnError (Error ''read ECONNRESET''), OnEnd]"]
  have "SelectReply None \<notin> set [OnError (Error ''read ECONNRESET''), OnEnd]" by simp
  note b = t1 [THEN conjunct2, THEN conjunct2, THEN conjunct1, rule_format, OF this]
  note c = t2 [THEN conjunct2, THEN conjunct1, rule_format, of "[OnConnect, SelectReply None]"]
  have "\<exists>e. AuthReply (Some (Error ''WRONGPASS'')) = AuthReply (Some e)" by blast
  note d = t2 [THEN conjunct2, THEN conjunct2, THEN conjunct2, rule_format, OF this,
      of "[OnConnect, SelectReply None]"]
  from a b c d show ?thesis by (intro conjI)
qed

text \<open>
  C5. The claim: when the handshake of a \<^verbatim>\<open>login\<close> call fails, no handle is ever added to
  the open connections, and the callback is called exactly once, with an error. The
  callback part holds (\<open>failure_reported_once\<close>). The registry part fails after a failed
  select: \<^verbatim>\<open>selectDatabase\<close> stays registered for \<^verbatim>\<open>connect\<close>, and unlike the error listener
  the select callback does not close the client. When the client reconnects and the
  select succeeds, the client is pushed, although the callback has reported the error.
\<close>

theorem login_pushes_after_failed_select:
  "callback_calls
     (events [OnConnect, SelectReply (Some (Error ''ERR DB index is out of range'')),
              OnConnect, SelectReply None]
        (login new_client None sample_registry)) =
     [Some (Error ''ERR DB index is out of range'')] \<and>
   redisConnections (registry
     (events [OnConnect, SelectReply (Some (Error ''ERR DB index is out of range'')),
              OnConnect, SelectReply None]
        (login new_client None sample_registry))) =
     redisConnections sample_registry @ [new_client]"
  by (simp add: login_def on_event_def onceCallback_def truthy_def)

end
